theory Spec2Isabelle
  imports Complex_Main "HOL-Library.Word" "HOL-Library.Sublist"
begin

section \<open>The SIM7000 GPS tracker (main7.c) as HOL functions\<close>

text \<open>
  The firmware is one C file for an ATMEGA328P that talks to a SIM7000 modem over the
  UART. Its buffers are global \<open>uint8_t\<close> arrays holding text, its counters are
  \<open>uint8_t\<close>. The model keeps both: an array is a \<open>string\<close> (a list of 8-bit
  \<open>char\<close>s) of the declared size, a counter is an \<open>8 word\<close>. The globals, the
  bytes the modem is going to deliver and the effects the program has had so far are the
  fields of one record that every function takes and returns.
\<close>

subsection \<open>Faults\<close>

text \<open>
  \<open>Blocked\<close>: \<open>receive_uart\<close> spins on the receive flag and the modem sends nothing
  more, so the call never returns. \<open>OutOfBounds\<close>: an array is read or written outside
  its declared size, which C leaves undefined.
\<close>

datatype fault = Blocked | OutOfBounds

subsection \<open>Effects\<close>

text \<open>
  One event per call of an output primitive, in program order: \<open>send_uart(c)\<close>,
  \<open>uart_puts_P(s)\<close> with the flash string \<open>s\<close>, \<open>uart_puts(s)\<close> with the C string
  found in RAM, \<open>delay_sec(n)\<close>, the DTR pin PC5 driven low (\<open>False\<close>) or high, and
  \<open>eeprom_write_block\<close> with its EEPROM address and the bytes written.
\<close>

datatype event =
    Send char
  | Puts_P string
  | Puts string
  | Delay_sec nat
  | Dtr bool
  | Eeprom_write nat string

subsection \<open>Program state\<close>

record state =
  response :: string
  response_pos :: "8 word"
  phonenumber :: string
  phonenumber_pos :: "8 word"
  smstext :: string
  smstext_pos :: "8 word"
  latitude :: string
  latitude_pos :: "8 word"
  longtitude :: string
  longtitude_pos :: "8 word"
  latitudegps :: string
  longtitudegps :: string
  latitudegpsold :: string
  longtitudegpsold :: string
  buf :: string
  continousgps :: "8 word"
  initialized :: "8 word"
  ringrcvd :: "8 word"
  gpsdataavailable :: "8 word"
  rx :: string
  tx :: "event list"

text \<open>
  \<open>initialized\<close>, \<open>ringrcvd\<close> and \<open>gpsdataavailable\<close> are locals of \<open>main\<close>; \<open>rx\<close>
  is the byte stream still to come from the modem and \<open>tx\<close> the effects so far.
\<close>

definition BUFFER_SIZE :: "8 word" where
  "BUFFER_SIZE = 170"

text \<open>The declared sizes of the arrays (lines 149--173 of main7.c).\<close>

definition wf_state :: "state \<Rightarrow> bool" where
  "wf_state st =
     (length (response st) = 170 \<and> length (smstext st) = 170 \<and>
      length (phonenumber st) = 20 \<and>
      length (latitude st) = 20 \<and> length (longtitude st) = 20 \<and>
      length (latitudegps st) = 20 \<and> length (longtitudegps st) = 20 \<and>
      length (latitudegpsold st) = 20 \<and> length (longtitudegpsold st) = 20 \<and>
      length (buf st) = 40)"

subsection \<open>Characters and array access\<close>

definition NUL :: char where "NUL = CHR 0x00"
definition LF :: char where "LF = CHR 0x0A"
definition CR :: char where "CR = CHR 0x0D"
definition CTRL_Z :: char where "CTRL_Z = CHR 0x1A"

text \<open>
  \<open>a[i]\<close> with an 8-bit index. Every array of the program is shorter than 256 bytes; a
  longer list is not one of its arrays and any access to it is reported as a fault too.
\<close>

definition rd :: "string \<Rightarrow> 8 word \<Rightarrow> fault + char" where
  "rd a i = (if unat i < length a \<and> length a < 256 then Inr (a ! unat i) else Inl OutOfBounds)"

definition wr :: "string \<Rightarrow> 8 word \<Rightarrow> char \<Rightarrow> fault + string" where
  "wr a i c = (if unat i < length a \<and> length a < 256 then Inr (a[unat i := c]) else Inl OutOfBounds)"

text \<open>
  The C string held in an array: the bytes before its first NUL. Library routines that
  walk a string (\<open>strlen\<close>, \<open>strupr\<close>, \<open>atof\<close>, and \<open>uart_puts\<close>) run off the array when
  it holds no NUL.
\<close>

definition cstr :: "string \<Rightarrow> fault + string" where
  "cstr a = (if NUL \<in> set a then Inr (takeWhile (\<lambda>c. c \<noteq> NUL) a) else Inl OutOfBounds)"

definition strlen :: "string \<Rightarrow> fault + nat" where
  "strlen a = (case cstr a of Inl e \<Rightarrow> Inl e | Inr s \<Rightarrow> Inr (length s))"

text \<open>
  \<open>memcpy(dst, src, n)\<close> and \<open>memcpy_P(dst, src, n)\<close>: the first \<open>n\<close> bytes of \<open>dst\<close>
  are replaced by the first \<open>n\<close> bytes of \<open>src\<close>.
\<close>

definition memcpy :: "string \<Rightarrow> string \<Rightarrow> nat \<Rightarrow> fault + string" where
  "memcpy dst src n =
     (if n \<le> length dst \<and> n \<le> length src then Inr (take n src @ drop n dst)
      else Inl OutOfBounds)"

text \<open>
  A flash string \<open>const char X[] PROGMEM = {"..."}\<close> is modelled by its text; the array
  itself has one more byte, the terminating NUL, and \<open>sizeof(X)\<close> counts it.
\<close>

definition flash :: "string \<Rightarrow> string" where
  "flash s = s @ [NUL]"

definition sizeof :: "string \<Rightarrow> nat" where
  "sizeof s = length s + 1"

definition memcpy_P :: "string \<Rightarrow> string \<Rightarrow> nat \<Rightarrow> fault + string" where
  "memcpy_P dst s n = memcpy dst (flash s) n"

text \<open>
  \<open>strupr\<close> of avr-libc converts the lower-case letters of a C string to upper case in
  place and leaves every other byte, and everything from the NUL on, as it is.
\<close>

definition toupper :: "char \<Rightarrow> char" where
  "toupper c =
     (let n = (of_char c :: nat)
      in if of_char (CHR ''a'') \<le> n \<and> n \<le> of_char (CHR ''z'') then char_of (n - 32) else c)"

definition strupr :: "string \<Rightarrow> fault + string" where
  "strupr a =
     (case cstr a of Inl e \<Rightarrow> Inl e
      | Inr s \<Rightarrow> Inr (map toupper s @ drop (length s) a))"

subsection \<open>Flash strings (lines 64--143)\<close>

definition AT :: string where "AT = ''AT'' @ [CR]"
definition ISATECHO :: string where "ISATECHO = ''AT''"
definition ISOK :: string where "ISOK = ''OK''"
definition ECHO_OFF :: string where "ECHO_OFF = ''ATE0'' @ [CR]"
definition SMS1 :: string where "SMS1 = ''AT+CMGF=1'' @ [CR]"
definition SMS2 :: string where "SMS2 = ''AT+CMGS='' @ [CHR 0x22]"
definition DELSMS :: string where "DELSMS = ''AT+CMGD=4'' @ [CR]"
definition ISSMS :: string where "ISSMS = ''CMT:''"
definition ISMULTI :: string where "ISMULTI = ''MULTI''"
definition ISSINGLE :: string where "ISSINGLE = ''SINGLE''"
definition ISACTIVATE :: string where "ISACTIVATE = ''ACTIVATE''"
definition ISGUARD :: string where "ISGUARD = ''GUARD''"
definition COMMANDSINGLEACK :: string where
  "COMMANDSINGLEACK =
     ''SINGLE MEASUREMENT IN PROGRESS... PLEASE WAIT 7-8 MINUTES BEFORE NEXT COMMAND'' @ [LF]"
definition COMMANDMULTIACK :: string where
  "COMMANDMULTIACK =
     ''MULTIPLE MEASUREMENTS IN PROGRESS.. PLEASE WAIT 25 MINUTES BEFORE NEXT COMMAND'' @ [LF]"
definition ACTIVATED :: string where "ACTIVATED = ''ACTIVATED CALLS FROM ''"
definition GUARD :: string where
  "GUARD = ''GUARD MODE ACTIVATED.. PLEASE WAIT 5 MINUTES BEFORE NEXT COMMAND'' @ [LF]"
definition ALERT :: string where "ALERT = ''ALERT, POSITION CHANGED TO :  ''"
definition CRLF :: string where "CRLF = [CHR 0x22, LF, CR]"
definition SLEEPOFF :: string where "SLEEPOFF = ''AT+CSCLK=0'' @ [CR]"
definition GOOGLELOC1 :: string where
  "GOOGLELOC1 = [CR, LF] @ '' http://maps.google.com/maps?q=''"
definition GOOGLELOC2 :: string where "GOOGLELOC2 = '',''"
definition GOOGLELOC3 :: string where "GOOGLELOC3 = [CR, LF]"
definition GPSPWRON :: string where "GPSPWRON = ''AT+CGNSPWR=1'' @ [CR]"
definition GPSINFO :: string where "GPSINFO = ''AT+CGNSINF'' @ [CR]"
definition GPSCLDSTART :: string where "GPSCLDSTART = ''AT+CGNSCOLD'' @ [CR]"
definition GPSPWROFF :: string where "GPSPWROFF = ''AT+CGNSPWR=0'' @ [CR]"

text \<open>
  \<open>INITLOC\<close> is written \<open>"0000000000000000000\x00"\<close>: nineteen zeros and an explicit
  NUL, so its array has 21 bytes with the implicit terminator.
\<close>

definition INITLOC :: string where "INITLOC = replicate 19 (CHR ''0'') @ [NUL]"

definition EEADDR :: nat where "EEADDR = 0"

subsection \<open>UART and delay primitives\<close>

text \<open>
  \<open>emit\<close> records one output call, \<open>emits\<close> a straight-line run of them in
  program order.
\<close>

definition emit :: "event \<Rightarrow> state \<Rightarrow> state" where
  "emit e st = st\<lparr>tx := tx st @ [e]\<rparr>"

definition emits :: "event list \<Rightarrow> state \<Rightarrow> state" where
  "emits es st = st\<lparr>tx := tx st @ es\<rparr>"

definition uart_puts :: "string \<Rightarrow> state \<Rightarrow> fault + state" where
  "uart_puts a st = (case cstr a of Inl e \<Rightarrow> Inl e | Inr s \<Rightarrow> Inr (emit (Puts s) st))"

definition receive_uart :: "state \<Rightarrow> fault + (char \<times> state)" where
  "receive_uart st = (case rx st of [] \<Rightarrow> Inl Blocked | c # cs \<Rightarrow> Inr (c, st\<lparr>rx := cs\<rparr>))"

text \<open>The effects a run has added to the trace.\<close>

definition sent_since :: "state \<Rightarrow> state \<Rightarrow> event list" where
  "sent_since st st' = drop (length (tx st)) (tx st')"

subsection \<open>\<open>is_in_rx_buffer\<close> (lines 225--239)\<close>

text \<open>
  The inner \<open>for\<close>: \<open>k\<close> and \<open>j\<close> advance together while neither string has ended and
  the bytes agree; the result is the final \<open>j\<close>.
\<close>

function rx_scan :: "string \<Rightarrow> string \<Rightarrow> 8 word \<Rightarrow> 8 word \<Rightarrow> fault + 8 word" where
  "rx_scan str sub k j =
     (case rd str k of Inl e \<Rightarrow> Inl e
      | Inr a \<Rightarrow>
          if a = NUL then Inr j
          else (case rd sub j of Inl e \<Rightarrow> Inl e
                | Inr b \<Rightarrow>
                    if b = NUL then Inr j
                    else if a \<noteq> b then Inr j
                    else rx_scan str sub (k + 1) (j + 1)))"
  by pat_completeness auto
termination
proof (relation "measure (\<lambda>(str, sub, k, j). 256 - unat k)")
  show "wf (measure (\<lambda>(str, sub, k, j). 256 - unat k))"
    by simp
next
  fix str sub :: string and k j :: "8 word" and a b :: char
  assume "rd str k = Inr a"
  then have "unat k < 255"
    by (simp add: rd_def split: if_splits)
  then have "unat (k + 1) = unat k + 1"
    by (simp add: unat_word_ariths)
  then show "((str, sub, k + 1, j + 1), (str, sub, k, j))
               \<in> measure (\<lambda>(str, sub, k, j). 256 - unat k)"
    using \<open>unat k < 255\<close> by simp
qed

declare rx_scan.simps [simp del]

text \<open>
  The outer \<open>for\<close>. \<open>j\<close> is not reset between positions: the test \<open>str[i] == sub[j]\<close>
  uses the value the last inner loop left.
\<close>

function rx_search :: "string \<Rightarrow> string \<Rightarrow> 8 word \<Rightarrow> 8 word \<Rightarrow> 8 word \<Rightarrow> fault + 8 word" where
  "rx_search str sub buffersize i j =
     (if i < buffersize then
        (case rd str i of Inl e \<Rightarrow> Inl e
         | Inr a \<Rightarrow>
             (case rd sub j of Inl e \<Rightarrow> Inl e
              | Inr b \<Rightarrow>
                  if a = b then
                    (case rx_scan str sub i 0 of Inl e \<Rightarrow> Inl e
                     | Inr j' \<Rightarrow>
                         (case strlen sub of Inl e \<Rightarrow> Inl e
                          | Inr n \<Rightarrow>
                              if unat j' = n then Inr 1
                              else rx_search str sub buffersize (i + 1) j'))
                  else rx_search str sub buffersize (i + 1) j))
      else Inr 0)"
  by pat_completeness auto
termination
proof (relation "measure (\<lambda>(str, sub, buffersize, i, j). unat buffersize - unat i)")
  show "wf (measure (\<lambda>(str, sub, buffersize, i, j). unat buffersize - unat i))"
    by simp
next
  fix str sub :: string and buffersize i j j' :: "8 word"
  assume "i < buffersize"
  then have lt: "unat i < unat buffersize"
    by (simp add: word_less_nat_alt)
  moreover have "unat buffersize < 256"
    using unsigned_less [of buffersize, where 'a = nat] by simp
  ultimately have "unat (i + 1) = unat i + 1"
    by (simp add: unat_word_ariths)
  with lt show "((str, sub, buffersize, i + 1, j'), (str, sub, buffersize, i, j))
                  \<in> measure (\<lambda>(str, sub, buffersize, i, j). unat buffersize - unat i)"
    by simp
  from \<open>unat (i + 1) = unat i + 1\<close> lt
  show "((str, sub, buffersize, i + 1, j), (str, sub, buffersize, i, j))
          \<in> measure (\<lambda>(str, sub, buffersize, i, j). unat buffersize - unat i)"
    by simp
qed

declare rx_search.simps [simp del]

definition is_in_rx_buffer :: "string \<Rightarrow> string \<Rightarrow> 8 word \<Rightarrow> fault + 8 word" where
  "is_in_rx_buffer str sub buffersize = rx_search str sub buffersize 0 0"

text \<open>
  The idiom \<open>memcpy_P(buf, T, sizeof(T)); is_in_rx_buffer(response, buf, BUFFER_SIZE)\<close>
  and its SMS form with \<open>strupr(smstext)\<close> as the first argument.
\<close>

definition response_has :: "string \<Rightarrow> state \<Rightarrow> fault + (8 word \<times> state)" where
  "response_has T st =
     (case memcpy_P (buf st) T (sizeof T) of Inl e \<Rightarrow> Inl e
      | Inr b \<Rightarrow>
          (case is_in_rx_buffer (response st) b BUFFER_SIZE of Inl e \<Rightarrow> Inl e
           | Inr r \<Rightarrow> Inr (r, st\<lparr>buf := b\<rparr>)))"

definition smstext_has :: "string \<Rightarrow> state \<Rightarrow> fault + (8 word \<times> state)" where
  "smstext_has T st =
     (case memcpy_P (buf st) T (sizeof T) of Inl e \<Rightarrow> Inl e
      | Inr b \<Rightarrow>
          (case strupr (smstext st) of Inl e \<Rightarrow> Inl e
           | Inr up \<Rightarrow>
               (case is_in_rx_buffer up b BUFFER_SIZE of Inl e \<Rightarrow> Inl e
                | Inr r \<Rightarrow> Inr (r, st\<lparr>buf := b, smstext := up\<rparr>))))"

subsection \<open>\<open>readline\<close> (lines 270--302) and \<open>readsmstxt\<close> (lines 308--340)\<close>

text \<open>
  One pass of the \<open>do\<close> body is \<open>receive_uart\<close>, the store of a payload byte, the
  end-of-line test and \<open>i++\<close>. \<open>wholeline\<close> is only ever set in the pass that leaves
  the loop, so it is the Boolean the end-of-line step returns.
\<close>

definition readline_store :: "char \<Rightarrow> 8 word \<Rightarrow> state \<Rightarrow> fault + state" where
  "readline_store char1 i st =
     (if char1 \<noteq> LF \<and> char1 \<noteq> CR \<and> i < 150 then
        (case wr (response st) (response_pos st) char1 of Inl e \<Rightarrow> Inl e
         | Inr a \<Rightarrow> Inr (st\<lparr>response := a, response_pos := response_pos st + 1\<rparr>))
      else Inr st)"

definition readline_eol :: "char \<Rightarrow> state \<Rightarrow> fault + (bool \<times> state)" where
  "readline_eol char1 st =
     (if (char1 = LF \<or> char1 = CR) \<and> response_pos st > 0 then
        (case wr (response st) (response_pos st) NUL of Inl e \<Rightarrow> Inl e
         | Inr a \<Rightarrow> Inr (True, st\<lparr>response := a, response_pos := 0\<rparr>))
      else Inr (False, st))"

definition readline_body :: "8 word \<Rightarrow> state \<Rightarrow> fault + (bool \<times> state)" where
  "readline_body i st =
     (case receive_uart st of Inl e \<Rightarrow> Inl e
      | Inr (char1, st1) \<Rightarrow>
          (case readline_store char1 i st1 of Inl e \<Rightarrow> Inl e
           | Inr st2 \<Rightarrow> readline_eol char1 st2))"

lemma receive_uart_rx:
  "receive_uart st = Inr (c, st') \<Longrightarrow> rx st = c # rx st'"
  by (auto simp: receive_uart_def split: list.splits)

lemma readline_body_rx:
  "readline_body i st = Inr (w, st') \<Longrightarrow> length (rx st') < length (rx st)"
  by (auto simp: readline_body_def readline_store_def readline_eol_def
           split: sum.splits prod.splits if_splits dest!: receive_uart_rx)

function readline_loop :: "8 word \<Rightarrow> state \<Rightarrow> fault + state" where
  "readline_loop i st =
     (case readline_body i st of Inl e \<Rightarrow> Inl e
      | Inr (wholeline, st') \<Rightarrow>
          if \<not> wholeline \<and> i + 1 < 150 then readline_loop (i + 1) st' else Inr st')"
  by pat_completeness auto
termination
  by (relation "measure (\<lambda>(i, st). length (rx st))") (auto dest: readline_body_rx)

declare readline_loop.simps [simp del]

definition readline :: "state \<Rightarrow> fault + (8 word \<times> state)" where
  "readline st =
     (case readline_loop 0 (st\<lparr>response_pos := 0\<rparr>) of Inl e \<Rightarrow> Inl e
      | Inr st' \<Rightarrow> Inr (1, st'))"

text \<open>\<open>readsmstxt\<close> is the same code on \<open>smstext\<close> and \<open>smstext_pos\<close>.\<close>

definition readsmstxt_store :: "char \<Rightarrow> 8 word \<Rightarrow> state \<Rightarrow> fault + state" where
  "readsmstxt_store char1 i st =
     (if char1 \<noteq> LF \<and> char1 \<noteq> CR \<and> i < 150 then
        (case wr (smstext st) (smstext_pos st) char1 of Inl e \<Rightarrow> Inl e
         | Inr a \<Rightarrow> Inr (st\<lparr>smstext := a, smstext_pos := smstext_pos st + 1\<rparr>))
      else Inr st)"

definition readsmstxt_eol :: "char \<Rightarrow> state \<Rightarrow> fault + (bool \<times> state)" where
  "readsmstxt_eol char1 st =
     (if (char1 = LF \<or> char1 = CR) \<and> smstext_pos st > 0 then
        (case wr (smstext st) (smstext_pos st) NUL of Inl e \<Rightarrow> Inl e
         | Inr a \<Rightarrow> Inr (True, st\<lparr>smstext := a, smstext_pos := 0\<rparr>))
      else Inr (False, st))"

definition readsmstxt_body :: "8 word \<Rightarrow> state \<Rightarrow> fault + (bool \<times> state)" where
  "readsmstxt_body i st =
     (case receive_uart st of Inl e \<Rightarrow> Inl e
      | Inr (char1, st1) \<Rightarrow>
          (case readsmstxt_store char1 i st1 of Inl e \<Rightarrow> Inl e
           | Inr st2 \<Rightarrow> readsmstxt_eol char1 st2))"

lemma readsmstxt_body_rx:
  "readsmstxt_body i st = Inr (w, st') \<Longrightarrow> length (rx st') < length (rx st)"
  by (auto simp: readsmstxt_body_def readsmstxt_store_def readsmstxt_eol_def
           split: sum.splits prod.splits if_splits dest!: receive_uart_rx)

function readsmstxt_loop :: "8 word \<Rightarrow> state \<Rightarrow> fault + state" where
  "readsmstxt_loop i st =
     (case readsmstxt_body i st of Inl e \<Rightarrow> Inl e
      | Inr (wholeline, st') \<Rightarrow>
          if \<not> wholeline \<and> i + 1 < 150 then readsmstxt_loop (i + 1) st' else Inr st')"
  by pat_completeness auto
termination
  by (relation "measure (\<lambda>(i, st). length (rx st))") (auto dest: readsmstxt_body_rx)

declare readsmstxt_loop.simps [simp del]

definition readsmstxt :: "state \<Rightarrow> fault + (8 word \<times> state)" where
  "readsmstxt st =
     (case readsmstxt_loop 0 (st\<lparr>smstext_pos := 0\<rparr>) of Inl e \<Rightarrow> Inl e
      | Inr st' \<Rightarrow> Inr (1, st'))"

subsection \<open>\<open>readsmsphonenumber\<close> (lines 347--387)\<close>

text \<open>
  The first two \<open>do\<close> loops walk \<open>response\<close> to the colon and to the opening quote;
  they differ in the stop character only. The third copies into \<open>phonenumber\<close> up to
  and including the closing quote, which the final store replaces by NUL. The fuse
  \<open>i<150\<close> is the only bound of all three.
\<close>

lemma rd_Inr_less: "rd a i = Inr c \<Longrightarrow> 256 - unat (i + 1) < 256 - unat i"
  by (simp add: rd_def unat_word_ariths split: if_splits)

function sms_skip_to :: "char \<Rightarrow> 8 word \<Rightarrow> state \<Rightarrow> fault + (8 word \<times> state)" where
  "sms_skip_to stop i st =
     (case rd (response st) (response_pos st) of Inl e \<Rightarrow> Inl e
      | Inr char1 \<Rightarrow>
          if char1 \<noteq> stop \<and> i + 1 < 150
          then sms_skip_to stop (i + 1) (st\<lparr>response_pos := response_pos st + 1\<rparr>)
          else Inr (i + 1, st\<lparr>response_pos := response_pos st + 1\<rparr>))"
  by pat_completeness auto
termination
  by (relation "measure (\<lambda>(stop, i, st). 256 - unat (response_pos st))")
     (auto dest: rd_Inr_less)

declare sms_skip_to.simps [simp del]

function sms_copy_number :: "8 word \<Rightarrow> state \<Rightarrow> fault + (8 word \<times> state)" where
  "sms_copy_number i st =
     (case rd (response st) (response_pos st) of Inl e \<Rightarrow> Inl e
      | Inr char1 \<Rightarrow>
          (case wr (phonenumber st) (phonenumber_pos st) char1 of Inl e \<Rightarrow> Inl e
           | Inr a \<Rightarrow>
               if char1 \<noteq> CHR 0x22 \<and> i + 1 < 150
               then sms_copy_number (i + 1)
                      (st\<lparr>response_pos := response_pos st + 1, phonenumber := a,
                          phonenumber_pos := phonenumber_pos st + 1\<rparr>)
               else Inr (i + 1, st\<lparr>response_pos := response_pos st + 1, phonenumber := a,
                                    phonenumber_pos := phonenumber_pos st + 1\<rparr>)))"
  by pat_completeness auto
termination
  by (relation "measure (\<lambda>(i, st). 256 - unat (response_pos st))")
     (auto dest: rd_Inr_less)

declare sms_copy_number.simps [simp del]

definition readsmsphonenumber :: "state \<Rightarrow> fault + (8 word \<times> state)" where
  "readsmsphonenumber st =
     (case sms_skip_to (CHR '':'') 0 (st\<lparr>phonenumber_pos := 0, response_pos := 0\<rparr>) of
        Inl e \<Rightarrow> Inl e
      | Inr (i1, st1) \<Rightarrow>
          (case sms_skip_to (CHR 0x22) i1 st1 of Inl e \<Rightarrow> Inl e
           | Inr (i2, st2) \<Rightarrow>
               (case sms_copy_number i2 st2 of Inl e \<Rightarrow> Inl e
                | Inr (i3, st3) \<Rightarrow>
                    (case wr (phonenumber st3) (phonenumber_pos st3 - 1) NUL of Inl e \<Rightarrow> Inl e
                     | Inr a \<Rightarrow>
                         Inr (1, st3\<lparr>phonenumber := a, phonenumber_pos := 0,
                                     response_pos := 0\<rparr>)))))"

subsection \<open>\<open>readSIM7000gps\<close> (lines 436--507)\<close>

text \<open>
  The loops \<open>do { char1 = receive_uart(); i++; } while ((char1 != c) && (i<n))\<close> that
  skip a field of the reply, and the two that copy a field into \<open>latitude\<close> and
  \<open>longtitude\<close>.
\<close>

function uart_skip_to :: "char \<Rightarrow> 8 word \<Rightarrow> 8 word \<Rightarrow> state \<Rightarrow> fault + (8 word \<times> state)" where
  "uart_skip_to stop bound i st =
     (case receive_uart st of Inl e \<Rightarrow> Inl e
      | Inr (char1, st') \<Rightarrow>
          if char1 \<noteq> stop \<and> i + 1 < bound then uart_skip_to stop bound (i + 1) st'
          else Inr (i + 1, st'))"
  by pat_completeness auto
termination
  by (relation "measure (\<lambda>(stop, bound, i, st). length (rx st))")
     (auto dest: receive_uart_rx)

declare uart_skip_to.simps [simp del]

function gps_copy_latitude :: "8 word \<Rightarrow> state \<Rightarrow> fault + (8 word \<times> state)" where
  "gps_copy_latitude i st =
     (case receive_uart st of Inl e \<Rightarrow> Inl e
      | Inr (char1, st') \<Rightarrow>
          (case wr (latitude st') (latitude_pos st') char1 of Inl e \<Rightarrow> Inl e
           | Inr a \<Rightarrow>
               if char1 \<noteq> CHR '','' \<and> i + 1 < 150
               then gps_copy_latitude (i + 1)
                      (st'\<lparr>latitude := a, latitude_pos := latitude_pos st' + 1\<rparr>)
               else Inr (i + 1, st'\<lparr>latitude := a, latitude_pos := latitude_pos st' + 1\<rparr>)))"
  by pat_completeness auto
termination
  by (relation "measure (\<lambda>(i, st). length (rx st))") (auto dest: receive_uart_rx)

declare gps_copy_latitude.simps [simp del]

function gps_copy_longtitude :: "8 word \<Rightarrow> state \<Rightarrow> fault + (8 word \<times> state)" where
  "gps_copy_longtitude i st =
     (case receive_uart st of Inl e \<Rightarrow> Inl e
      | Inr (char1, st') \<Rightarrow>
          (case wr (longtitude st') (longtitude_pos st') char1 of Inl e \<Rightarrow> Inl e
           | Inr a \<Rightarrow>
               if char1 \<noteq> CHR '','' \<and> i + 1 < 150
               then gps_copy_longtitude (i + 1)
                      (st'\<lparr>longtitude := a, longtitude_pos := longtitude_pos st' + 1\<rparr>)
               else Inr (i + 1, st'\<lparr>longtitude := a, longtitude_pos := longtitude_pos st' + 1\<rparr>)))"
  by pat_completeness auto
termination
  by (relation "measure (\<lambda>(i, st). length (rx st))") (auto dest: receive_uart_rx)

declare gps_copy_longtitude.simps [simp del]

definition readSIM7000gps :: "state \<Rightarrow> fault + (8 word \<times> state)" where
  "readSIM7000gps st =
     (case uart_skip_to (CHR '':'') 20 0
             (emit (Puts_P GPSINFO) (st\<lparr>longtitude_pos := 0, latitude_pos := 0\<rparr>)) of
        Inl e \<Rightarrow> Inl e
      | Inr (i1, st1) \<Rightarrow>
          if i1 = 20 then Inr (0, st1)
          else
          (case uart_skip_to (CHR '','') 150 i1 st1 of Inl e \<Rightarrow> Inl e
           | Inr (i2, st2) \<Rightarrow>
          (case uart_skip_to (CHR '','') 150 i2 st2 of Inl e \<Rightarrow> Inl e
           | Inr (i3, st3) \<Rightarrow>
          (case uart_skip_to (CHR '','') 150 i3 st3 of Inl e \<Rightarrow> Inl e
           | Inr (i4, st4) \<Rightarrow>
          (case gps_copy_latitude i4 st4 of Inl e \<Rightarrow> Inl e
           | Inr (i5, st5) \<Rightarrow>
          (case wr (latitude st5) (latitude_pos st5 - 1) NUL of Inl e \<Rightarrow> Inl e
           | Inr la \<Rightarrow>
          (case gps_copy_longtitude i5 (st5\<lparr>latitude := la, latitude_pos := 0\<rparr>) of
             Inl e \<Rightarrow> Inl e
           | Inr (i6, st6) \<Rightarrow>
          (case wr (longtitude st6) (longtitude_pos st6 - 1) NUL of Inl e \<Rightarrow> Inl e
           | Inr lo \<Rightarrow>
          (case uart_skip_to (CHR '','') 150 i6 (st6\<lparr>longtitude := lo, longtitude_pos := 0\<rparr>) of
             Inl e \<Rightarrow> Inl e
           | Inr (i7, st7) \<Rightarrow> Inr (1, st7))))))))))"

subsection \<open>\<open>readgpsinfo\<close> (lines 514--593)\<close>

text \<open>The branch taken on a fix (lines 564--579); it always returns 1.\<close>

definition readgpsinfo_fixed :: "state \<Rightarrow> fault + (8 word \<times> state)" where
  "readgpsinfo_fixed st =
     (case memcpy_P (latitudegps st) INITLOC (sizeof INITLOC) of Inl e \<Rightarrow> Inl e
      | Inr la \<Rightarrow>
          (case memcpy_P (longtitudegps st) INITLOC (sizeof INITLOC) of Inl e \<Rightarrow> Inl e
           | Inr lo \<Rightarrow>
               (case readSIM7000gps (st\<lparr>latitudegps := la, longtitudegps := lo\<rparr>) of
                  Inl e \<Rightarrow> Inl e
                | Inr (r, st1) \<Rightarrow>
                    let st2 = emit (Delay_sec 2) st1
                    in Inr (1, if continousgps st2 = 1
                               then emits [Puts_P GPSPWROFF, Delay_sec 1] st2 else st2))))"

lemma rx_emit [simp]: "rx (emit e st) = rx st"
  by (simp add: emit_def)

lemma rx_emits [simp]: "rx (emits es st) = rx st"
  by (simp add: emits_def)

lemma readline_loop_rx:
  "readline_loop i st = Inr st' \<Longrightarrow> length (rx st') < length (rx st)"
proof (induction i st rule: readline_loop.induct)
  case (1 i st)
  from "1.prems" obtain w st1 where body: "readline_body i st = Inr (w, st1)"
    by (subst (asm) readline_loop.simps) (auto split: sum.splits)
  note dec = readline_body_rx [OF body]
  show ?case
  proof (cases "\<not> w \<and> i + 1 < 150")
    case True
    with "1.prems" body have "readline_loop (i + 1) st1 = Inr st'"
      by (subst (asm) readline_loop.simps) simp
    with "1.IH" [OF body refl] True have "length (rx st') < length (rx st1)"
      by simp
    with dec show ?thesis by simp
  next
    case False
    with "1.prems" body have "st' = st1"
      by (subst (asm) readline_loop.simps) auto
    with dec show ?thesis by simp
  qed
qed

lemma readline_rx:
  "readline st = Inr (r, st') \<Longrightarrow> length (rx st') < length (rx st)"
  by (auto simp: readline_def split: sum.splits dest!: readline_loop_rx)

lemma response_has_rx:
  "response_has T st = Inr (m, st') \<Longrightarrow> rx st' = rx st"
  by (auto simp: response_has_def split: sum.splits)




subsection \<open>\<open>checkat\<close> (lines 661--692)\<close>

text \<open>
  \<open>initialized2\<close> is 0 on entry to every pass and the loop ends as soon as it is 1, so
  the pass returns at once when the matcher reports 1.
\<close>

function checkat_loop :: "state \<Rightarrow> fault + state" where
  "checkat_loop st =
     (case readline (emit (Puts_P AT) st) of Inl e \<Rightarrow> Inl e
      | Inr (r, st1) \<Rightarrow>
          (case (if r > 0 then response_has ISOK st1 else response_has ISATECHO st1) of
             Inl e \<Rightarrow> Inl e
           | Inr (m, st2) \<Rightarrow>
               if m = 1 then Inr (emit (Delay_sec 1) st2)
               else checkat_loop (emit (Delay_sec 1) st2)))"
  by pat_completeness auto
termination
  by (relation "measure (\<lambda>st. length (rx st))")
     (auto dest!: readline_rx response_has_rx split: if_splits)

declare checkat_loop.simps [simp del]

definition checkat :: "state \<Rightarrow> fault + (8 word \<times> state)" where
  "checkat st =
     (case checkat_loop st of Inl e \<Rightarrow> Inl e
      | Inr st1 \<Rightarrow> Inr (1, emits [Delay_sec 1, Puts_P ECHO_OFF, Delay_sec 1] st1))"

subsection \<open>\<open>checkregistration\<close> (lines 728--808)\<close>







subsection \<open>The SMS command block of \<open>main\<close> (lines 1109--1297)\<close>

text \<open>
  Three runs of calls are repeated verbatim in every command branch: waking the modem
  through DTR (lines 1126--1134), opening a text-mode SMS to \<open>phonenumber\<close> (lines
  1137--1143) and closing it with Ctrl-Z followed by the deletion of stored messages
  (lines 1146--1153).
\<close>

definition wake_sim7000 :: "state \<Rightarrow> state" where
  "wake_sim7000 st =
     emits [Dtr False, Puts_P AT, Delay_sec 1, Puts_P SLEEPOFF, Delay_sec 1, Dtr True,
            Delay_sec 1] st"

definition sms_open :: "state \<Rightarrow> fault + state" where
  "sms_open st =
     (case uart_puts (phonenumber st) (emits [Puts_P SMS1, Delay_sec 1, Puts_P SMS2] st) of
        Inl e \<Rightarrow> Inl e
      | Inr st1 \<Rightarrow> Inr (emits [Puts_P CRLF, Delay_sec 1] st1))"

definition sms_close :: "state \<Rightarrow> state" where
  "sms_close st =
     emits [Send CTRL_Z, Delay_sec 10, Puts_P SMS1, Delay_sec 1, Puts_P DELSMS, Delay_sec 2] st"

definition eeprom_write_block :: "string \<Rightarrow> nat \<Rightarrow> nat \<Rightarrow> state \<Rightarrow> fault + state" where
  "eeprom_write_block src addr n st =
     (if n \<le> length src then Inr (emit (Eeprom_write addr (take n src)) st)
      else Inl OutOfBounds)"

definition sms_multi :: "state \<Rightarrow> fault + state" where
  "sms_multi st =
     (case smstext_has ISMULTI st of Inl e \<Rightarrow> Inl e
      | Inr (m, st1) \<Rightarrow>
          if m = 1 then
            (case sms_open (wake_sim7000 st1) of Inl e \<Rightarrow> Inl e
             | Inr st2 \<Rightarrow>
                 Inr ((sms_close (emit (Puts_P COMMANDMULTIACK) st2))
                        \<lparr>initialized := 1, ringrcvd := 1, continousgps := 5\<rparr>))
          else Inr st1)"

definition sms_single :: "state \<Rightarrow> fault + state" where
  "sms_single st =
     (case smstext_has ISSINGLE st of Inl e \<Rightarrow> Inl e
      | Inr (m, st1) \<Rightarrow>
          if m = 1 then
            (case sms_open (wake_sim7000 st1) of Inl e \<Rightarrow> Inl e
             | Inr st2 \<Rightarrow>
                 Inr ((sms_close (emit (Puts_P COMMANDSINGLEACK) st2))
                        \<lparr>initialized := 1, ringrcvd := 1, continousgps := 1\<rparr>))
          else Inr st1)"

definition sms_activate :: "state \<Rightarrow> fault + state" where
  "sms_activate st =
     (case smstext_has ISACTIVATE st of Inl e \<Rightarrow> Inl e
      | Inr (m, st1) \<Rightarrow>
          if m = 1 then
            (case eeprom_write_block (phonenumber st1) EEADDR 20 (wake_sim7000 st1) of
               Inl e \<Rightarrow> Inl e
             | Inr st2 \<Rightarrow>
                 (case sms_open st2 of Inl e \<Rightarrow> Inl e
                  | Inr st3 \<Rightarrow>
                      (case uart_puts (phonenumber st3) (emit (Puts_P ACTIVATED) st3) of
                         Inl e \<Rightarrow> Inl e
                       | Inr st4 \<Rightarrow>
                           Inr ((sms_close st4)
                                  \<lparr>initialized := 0, ringrcvd := 1, continousgps := 0\<rparr>))))
          else Inr st1)"

definition sms_guard :: "state \<Rightarrow> fault + state" where
  "sms_guard st =
     (case smstext_has ISGUARD st of Inl e \<Rightarrow> Inl e
      | Inr (m, st1) \<Rightarrow>
          if m = 1 then
            (case sms_open (wake_sim7000 st1) of Inl e \<Rightarrow> Inl e
             | Inr st2 \<Rightarrow>
                 Inr (emits [Puts_P GPSPWRON, Delay_sec 2, Puts_P GPSCLDSTART, Delay_sec 1]
                        ((sms_close (emit (Puts_P GUARD) st2))
                           \<lparr>initialized := 1, ringrcvd := 1, continousgps := 255\<rparr>)))
          else Inr st1)"

text \<open>
  The four keyword tests of lines 1116--1295, one after the other, none inside the
  \<open>else\<close> of another.
\<close>

definition main_sms_dispatch :: "state \<Rightarrow> fault + state" where
  "main_sms_dispatch st =
     (case sms_multi (st\<lparr>initialized := 0, ringrcvd := 0, continousgps := 0\<rparr>) of
        Inl e \<Rightarrow> Inl e
      | Inr st1 \<Rightarrow>
          (case sms_single st1 of Inl e \<Rightarrow> Inl e
           | Inr st2 \<Rightarrow>
               (case sms_activate st2 of Inl e \<Rightarrow> Inl e
                | Inr st3 \<Rightarrow> sms_guard st3)))"

text \<open>
  The body of \<open>if (is_in_rx_buffer(response, buf, BUFFER_SIZE) == 1 && ringrcvd == 0)\<close>
  once the line in \<open>response\<close> carries the marker \<open>CMT:\<close>.
\<close>

definition main_sms :: "state \<Rightarrow> fault + state" where
  "main_sms st =
     (case readsmstxt st of Inl e \<Rightarrow> Inl e
      | Inr (r1, st1) \<Rightarrow>
          (case readsmsphonenumber st1 of Inl e \<Rightarrow> Inl e
           | Inr (r2, st2) \<Rightarrow> main_sms_dispatch st2))"

subsection \<open>The movement check of Guard mode in \<open>main\<close> (lines 1424--1489)\<close>

text \<open>
  \<open>latdiff\<close> and \<open>longdiff\<close> are \<open>double\<close>s computed from \<open>atof\<close>. The C library and
  the floating-point arithmetic of the target are not part of main7.c; the block is
  modelled over any type \<open>'d\<close> of doubles, with \<open>atof\<close>, the constants 0 and 0.0027,
  subtraction and the comparisons \<open><\<close> and \<open>==\<close> as parameters.
\<close>

record 'd fpu =
  atof :: "string \<Rightarrow> 'd"
  fp_zero :: 'd
  fp_threshold :: 'd
  fp_minus :: "'d \<Rightarrow> 'd \<Rightarrow> 'd"
  fp_less :: "'d \<Rightarrow> 'd \<Rightarrow> bool"
  fp_eq :: "'d \<Rightarrow> 'd \<Rightarrow> bool"

text \<open>\<open>if (x < 0) x = 0 - x;\<close>\<close>

definition fp_abs :: "'d fpu \<Rightarrow> 'd \<Rightarrow> 'd" where
  "fp_abs F x = (if fp_less F x (fp_zero F) then fp_minus F (fp_zero F) x else x)"

text \<open>The alert SMS and the exit from Guard mode (lines 1448--1480).\<close>

definition guard_alert :: "state \<Rightarrow> fault + state" where
  "guard_alert st =
     (case sms_open (emit (Delay_sec 1) st) of Inl e \<Rightarrow> Inl e
      | Inr st1 \<Rightarrow>
          (case uart_puts (latitudegps st1) (emits [Puts_P ALERT, Puts_P GOOGLELOC1] st1) of
             Inl e \<Rightarrow> Inl e
           | Inr st2 \<Rightarrow>
               (case uart_puts (longtitudegps st2) (emit (Puts_P GOOGLELOC2) st2) of
                  Inl e \<Rightarrow> Inl e
                | Inr st3 \<Rightarrow>
                    Inr (emits [Puts_P GPSPWROFF, Delay_sec 1, Puts_P SMS1, Delay_sec 1,
                                Puts_P DELSMS, Delay_sec 2]
                           ((emits [Puts_P GOOGLELOC3, Delay_sec 1, Send CTRL_Z, Delay_sec 10]
                               st3)\<lparr>continousgps := 1\<rparr>)))))"

text \<open>The comparison of the old with the new position (lines 1436--1445).\<close>

definition guard_compare :: "'d fpu \<Rightarrow> state \<Rightarrow> fault + state" where
  "guard_compare F st =
     (case cstr (latitudegpsold st) of Inl e \<Rightarrow> Inl e
      | Inr latold \<Rightarrow>
     (case cstr (latitudegps st) of Inl e \<Rightarrow> Inl e
      | Inr lat \<Rightarrow>
     (case cstr (longtitudegpsold st) of Inl e \<Rightarrow> Inl e
      | Inr longold \<Rightarrow>
     (case cstr (longtitudegps st) of Inl e \<Rightarrow> Inl e
      | Inr long \<Rightarrow>
          let latdiff = fp_abs F (fp_minus F (atof F latold) (atof F lat));
              longdiff = fp_abs F (fp_minus F (atof F longold) (atof F long))
          in if fp_less F (fp_threshold F) longdiff \<or> fp_less F (fp_threshold F) latdiff
             then guard_alert st else Inr st))))"

text \<open>The current position becomes the old one (lines 1486--1489).\<close>

definition remember_position :: "state \<Rightarrow> fault + state" where
  "remember_position st =
     (case memcpy (latitudegpsold st) (latitudegps st) 10 of Inl e \<Rightarrow> Inl e
      | Inr la \<Rightarrow>
     (case memcpy (longtitudegpsold st) (longtitudegps st) 11 of Inl e \<Rightarrow> Inl e
      | Inr lo \<Rightarrow>
     (case wr lo 11 NUL of Inl e \<Rightarrow> Inl e
      | Inr lo' \<Rightarrow>
     (case wr la 10 NUL of Inl e \<Rightarrow> Inl e
      | Inr la' \<Rightarrow> Inr (st\<lparr>latitudegpsold := la', longtitudegpsold := lo'\<rparr>)))))"

definition main_guard_check :: "'d fpu \<Rightarrow> state \<Rightarrow> fault + state" where
  "main_guard_check F st =
     (case cstr (latitudegpsold st) of Inl e \<Rightarrow> Inl e
      | Inr latold \<Rightarrow>
     (case cstr (longtitudegpsold st) of Inl e \<Rightarrow> Inl e
      | Inr longold \<Rightarrow>
          let latdiff = atof F latold; longdiff = atof F longold
          in (case (if gpsdataavailable st = 1 \<and> continousgps st = 255 \<and>
                       \<not> fp_eq F latdiff (fp_zero F) \<and> \<not> fp_eq F longdiff (fp_zero F)
                    then guard_compare F st else Inr st) of
                Inl e \<Rightarrow> Inl e
              | Inr st1 \<Rightarrow> remember_position st1)))"

subsection \<open>Exact decimal arithmetic in place of the target's doubles\<close>

text \<open>
  For evaluation at concrete inputs: \<open>atof\<close> on a decimal numeral (optional sign, digits,
  optional fraction), with the value taken as the exact rational and the arithmetic done
  without rounding.
\<close>

definition is_digit :: "char \<Rightarrow> bool" where
  "is_digit c = (of_char (CHR ''0'') \<le> (of_char c :: nat) \<and> (of_char c :: nat) \<le> of_char (CHR ''9''))"

definition digits_value :: "string \<Rightarrow> nat" where
  "digits_value ds = foldl (\<lambda>n c. 10 * n + (of_char c - of_char (CHR ''0''))) 0 ds"

definition atof_unsigned :: "string \<Rightarrow> rat" where
  "atof_unsigned s =
     (let ip = takeWhile is_digit s; r = dropWhile is_digit s;
          fp = (case r of [] \<Rightarrow> [] | c # t \<Rightarrow> if c = CHR ''.'' then takeWhile is_digit t else [])
      in of_nat (digits_value ip) + of_nat (digits_value fp) / 10 ^ length fp)"

definition atof_decimal :: "string \<Rightarrow> rat" where
  "atof_decimal s =
     (case s of [] \<Rightarrow> 0
      | c # t \<Rightarrow>
          if c = CHR ''-'' then - atof_unsigned t
          else if c = CHR ''+'' then atof_unsigned t
          else atof_unsigned s)"

definition decimal_fpu :: "rat fpu" where
  "decimal_fpu =
     \<lparr>atof = atof_decimal, fp_zero = 0, fp_threshold = 27 / 10000,
      fp_minus = (\<lambda>x y. x - y), fp_less = (\<lambda>x y. x < y), fp_eq = (\<lambda>x y. x = y)\<rparr>"

subsection \<open>The globals at power-on (lines 150--178)\<close>

definition initial_state :: state where
  "initial_state =
     \<lparr>response = concat (replicate 17 ''1234567890''), response_pos = 0,
      phonenumber = ''12345678901234567890'', phonenumber_pos = 0,
      smstext = concat (replicate 17 ''1234567890''), smstext_pos = 0,
      latitude = replicate 20 (CHR ''0''), latitude_pos = 0,
      longtitude = replicate 20 (CHR ''0''), longtitude_pos = 0,
      latitudegps = replicate 20 (CHR ''0''), longtitudegps = replicate 20 (CHR ''0''),
      latitudegpsold = replicate 20 (CHR ''0''), longtitudegpsold = replicate 20 (CHR ''0''),
      buf = replicate 40 NUL, continousgps = 0, initialized = 0, ringrcvd = 0,
      gpsdataavailable = 0, rx = [], tx = []\<rparr>"

section \<open>Event sequences, invariants and example states\<close>

text \<open>
  The statements below speak about what a function has sent and about concrete runs.
  This section names the event sequences of the individual code paths, the predicates
  used in the statements and the states the examples start from.
\<close>

subsection \<open>What the code paths send\<close>

text \<open>
  The alert SMS of Guard mode (lines 1449--1482), for the number \<open>num\<close> and the position
  \<open>lat\<close>, \<open>long\<close>.
\<close>

definition alert_events :: "string \<Rightarrow> string \<Rightarrow> string \<Rightarrow> event list" where
  "alert_events num lat long =
     [Delay_sec 1, Puts_P SMS1, Delay_sec 1, Puts_P SMS2, Puts num, Puts_P CRLF, Delay_sec 1,
      Puts_P ALERT, Puts_P GOOGLELOC1, Puts lat, Puts_P GOOGLELOC2, Puts long,
      Puts_P GOOGLELOC3, Delay_sec 1, Send CTRL_Z, Delay_sec 10,
      Puts_P GPSPWROFF, Delay_sec 1, Puts_P SMS1, Delay_sec 1, Puts_P DELSMS, Delay_sec 2]"






text \<open>
  What the branch of each keyword sends: the wake-up of the modem, the acknowledgment
  SMS to the sender, and for \<open>ACTIVATE\<close> the EEPROM write, for \<open>GUARD\<close> the
  start of the GPS engine.
\<close>

definition wake_events :: "event list" where
  "wake_events =
     [Dtr False, Puts_P AT, Delay_sec 1, Puts_P SLEEPOFF, Delay_sec 1, Dtr True, Delay_sec 1]"

definition sms_events :: "string \<Rightarrow> event list \<Rightarrow> event list" where
  "sms_events num text =
     [Puts_P SMS1, Delay_sec 1, Puts_P SMS2, Puts num, Puts_P CRLF, Delay_sec 1] @ text @
     [Send CTRL_Z, Delay_sec 10, Puts_P SMS1, Delay_sec 1, Puts_P DELSMS, Delay_sec 2]"

definition multi_events :: "string \<Rightarrow> event list" where
  "multi_events num = wake_events @ sms_events num [Puts_P COMMANDMULTIACK]"

definition single_events :: "string \<Rightarrow> event list" where
  "single_events num = wake_events @ sms_events num [Puts_P COMMANDSINGLEACK]"

definition activate_events :: "string \<Rightarrow> string \<Rightarrow> event list" where
  "activate_events num bytes =
     wake_events @ [Eeprom_write EEADDR bytes] @ sms_events num [Puts_P ACTIVATED, Puts num]"

definition guard_events :: "string \<Rightarrow> event list" where
  "guard_events num =
     wake_events @ sms_events num [Puts_P GUARD] @
     [Puts_P GPSPWRON, Delay_sec 2, Puts_P GPSCLDSTART, Delay_sec 1]"

subsection \<open>Predicates\<close>

text \<open>What the code computes for "the position has moved" (line 1445).\<close>

definition fp_moved :: "'d fpu \<Rightarrow> string \<Rightarrow> string \<Rightarrow> string \<Rightarrow> string \<Rightarrow> bool" where
  "fp_moved F latold longold lat long =
     (fp_less F (fp_threshold F) (fp_abs F (fp_minus F (atof F longold) (atof F long))) \<or>
      fp_less F (fp_threshold F) (fp_abs F (fp_minus F (atof F latold) (atof F lat))))"

text \<open>
  The same in exact decimal arithmetic, in the terms of the specification: the sentinel is
  a fix whose two coordinate strings consist of the digit 0 only, and the position has
  moved when the absolute difference of the parsed latitudes or of the parsed longitudes
  exceeds 0.0027.
\<close>

definition all_zero_fix :: "string \<Rightarrow> string \<Rightarrow> bool" where
  "all_zero_fix lat long = (set lat \<subseteq> {CHR ''0''} \<and> set long \<subseteq> {CHR ''0''})"


text \<open>
  What the four branches of the SMS dispatcher keep: the size of \<open>buf\<close>, the upper-cased
  body in \<open>smstext\<close> and the sender in \<open>phonenumber\<close>.
\<close>

definition dispatch_inv :: "string \<Rightarrow> string \<Rightarrow> string \<Rightarrow> state \<Rightarrow> bool" where
  "dispatch_inv up num pn s =
     (length (buf s) = 40 \<and> strupr (smstext s) = Inr up \<and>
      phonenumber s = pn \<and> cstr pn = Inr num \<and> length pn = 20)"

subsection \<open>Example states\<close>

text \<open>A line of 200 bytes without terminator, arriving at power-on.\<close>

definition long_line :: state where
  "long_line = initial_state\<lparr>rx := replicate 200 (CHR ''A'')\<rparr>"

text \<open>
  A modem with echo on that answers nothing else: every probe \<open>AT\<close> comes back as the
  line \<open>AT\<close>. After the first pass \<open>response\<close> holds \<open>AT\<close> followed by what was
  there before, and \<open>buf\<close> holds \<open>OK\<close>.
\<close>

definition echo_response :: string where
  "echo_response = ''AT'' @ [NUL] @ drop 3 (concat (replicate 17 ''1234567890''))"

definition ok_buf :: string where
  "ok_buf = flash ISOK @ replicate 37 NUL"

text \<open>
  Guard mode with a fix just acquired, as \<open>main\<close> reaches line 1424: the SMS sender in
  \<open>phonenumber\<close>, the previous position in the \<open>...old\<close> arrays and the new one in
  \<open>latitudegps\<close> and \<open>longtitudegps\<close>, each NUL-padded to its array.
\<close>

definition pad :: "nat \<Rightarrow> string \<Rightarrow> string" where
  "pad n s = s @ replicate (n - length s) NUL"

definition guard_fix :: "string \<Rightarrow> string \<Rightarrow> string \<Rightarrow> string \<Rightarrow> state" where
  "guard_fix latold longold lat long =
     initial_state
       \<lparr>phonenumber := pad 20 ''+48123456789'',
        latitudegpsold := pad 20 latold, longtitudegpsold := pad 20 longold,
        latitudegps := pad 20 lat, longtitudegps := pad 20 long,
        continousgps := 255, gpsdataavailable := 1\<rparr>"

definition same_place :: state where
  "same_place = guard_fix ''52.000000'' ''21.000000'' ''52.000000'' ''21.000000''"

definition moved_north :: state where
  "moved_north = guard_fix ''52.000000'' ''21.000000'' ''52.003000'' ''21.000000''"


definition on_meridian :: state where
  "on_meridian = guard_fix ''51.477000'' ''0.000000'' ''51.477000'' ''0.500000''"

definition first_fix :: state where
  "first_fix =
     guard_fix (replicate 19 (CHR ''0'')) (replicate 19 (CHR ''0'')) ''52.000000'' ''21.000000''"

text \<open>
  The notification of an incoming SMS in text mode, as the modem prints it:
  \<open>+CMT: "<sender>","","<timestamp>"\<close>, and the state of \<open>main\<close> once \<open>readline\<close> has
  put that line into \<open>response\<close> and the body is the next thing to arrive.
\<close>

definition cmt_line :: "string \<Rightarrow> string" where
  "cmt_line num =
     ''+CMT: '' @ [CHR 0x22] @ num @ [CHR 0x22] @ '','' @ [CHR 0x22, CHR 0x22] @ '','' @
     [CHR 0x22] @ ''24/01/01,12:00:00+04'' @ [CHR 0x22]"

definition sms_received :: "string \<Rightarrow> string \<Rightarrow> state" where
  "sms_received num body =
     initial_state
       \<lparr>response := cmt_line num @ [NUL] @ drop (length (cmt_line num) + 1) (response initial_state),
        rx := [LF] @ body @ [CR, LF]\<rparr>"







section \<open>The trace of effects\<close>

text \<open>
  \<open>emit\<close> and \<open>emits\<close> append to the trace and touch no other field.
\<close>

lemma tx_emit [simp]: "tx (emit e st) = tx st @ [e]"
  by (simp add: emit_def)

lemma tx_emits [simp]: "tx (emits es st) = tx st @ es"
  by (simp add: emits_def)

lemma emit_fields [simp]:
  "response (emit e st) = response st"
  "response_pos (emit e st) = response_pos st"
  "phonenumber (emit e st) = phonenumber st"
  "phonenumber_pos (emit e st) = phonenumber_pos st"
  "smstext (emit e st) = smstext st"
  "smstext_pos (emit e st) = smstext_pos st"
  "latitude (emit e st) = latitude st"
  "latitude_pos (emit e st) = latitude_pos st"
  "longtitude (emit e st) = longtitude st"
  "longtitude_pos (emit e st) = longtitude_pos st"
  "latitudegps (emit e st) = latitudegps st"
  "longtitudegps (emit e st) = longtitudegps st"
  "latitudegpsold (emit e st) = latitudegpsold st"
  "longtitudegpsold (emit e st) = longtitudegpsold st"
  "buf (emit e st) = buf st"
  "continousgps (emit e st) = continousgps st"
  "initialized (emit e st) = initialized st"
  "ringrcvd (emit e st) = ringrcvd st"
  "gpsdataavailable (emit e st) = gpsdataavailable st"
  by (simp_all add: emit_def)

lemma emits_fields [simp]:
  "response (emits es st) = response st"
  "response_pos (emits es st) = response_pos st"
  "phonenumber (emits es st) = phonenumber st"
  "phonenumber_pos (emits es st) = phonenumber_pos st"
  "smstext (emits es st) = smstext st"
  "smstext_pos (emits es st) = smstext_pos st"
  "latitude (emits es st) = latitude st"
  "latitude_pos (emits es st) = latitude_pos st"
  "longtitude (emits es st) = longtitude st"
  "longtitude_pos (emits es st) = longtitude_pos st"
  "latitudegps (emits es st) = latitudegps st"
  "longtitudegps (emits es st) = longtitudegps st"
  "latitudegpsold (emits es st) = latitudegpsold st"
  "longtitudegpsold (emits es st) = longtitudegpsold st"
  "buf (emits es st) = buf st"
  "continousgps (emits es st) = continousgps st"
  "initialized (emits es st) = initialized st"
  "ringrcvd (emits es st) = ringrcvd st"
  "gpsdataavailable (emits es st) = gpsdataavailable st"
  by (simp_all add: emits_def)

lemma sent_since_append [simp]: "tx st' = tx st @ es \<Longrightarrow> sent_since st st' = es"
  by (simp add: sent_since_def)


lemma emits_emits [simp]: "emits es2 (emits es1 st) = emits (es1 @ es2) st"
  by (simp add: emits_def)





section \<open>The response matcher\<close>

text \<open>
  C1. The claim: \<open>is_in_rx_buffer\<close> returns 1 exactly when the token occurs as a
  contiguous substring of the buffer. The code does not: with the text \<open>SINGLE GUARD\<close>
  in a 170-byte buffer and the token \<open>GUARD\<close> in \<open>buf\<close>, the token occurs in the
  buffer and the function returns 0. The \<open>G\<close> of \<open>SINGLE\<close> starts a partial match
  that fails at \<open>j = 1\<close>; \<open>j\<close> is not reset, so the following positions are
  compared with \<open>sub[1]\<close>, and the \<open>G\<close> that starts the real occurrence is passed
  over.
\<close>

theorem is_in_rx_buffer_misses_token:
  "sublist ISGUARD ''SINGLE GUARD'' \<and>
   is_in_rx_buffer (''SINGLE GUARD'' @ replicate 158 NUL) (flash ISGUARD @ replicate 34 NUL)
     BUFFER_SIZE = Inr 0"
  by code_simp

text \<open>
  The token is read up to its NUL and no further: what \<open>buf\<close> holds behind the NUL
  has no influence on the result.
\<close>

lemma rd_token:
  assumes "unat j \<le> length T" "length T + 1 + length r < 256"
  shows "rd (T @ NUL # r) j = Inr ((T @ [NUL]) ! unat j)"
  using assms by (simp add: rd_def nth_append)

lemma token_nth_NUL:
  assumes "NUL \<notin> set T" "n \<le> length T"
  shows "((T @ [NUL]) ! n = NUL) = (n = length T)"
proof (cases "n < length T")
  case True
  then have "T ! n \<in> set T"
    by (rule nth_mem)
  with assms(1) have "T ! n \<noteq> NUL"
    by metis
  with True show ?thesis
    by (simp add: nth_append)
next
  case False
  with assms(2) show ?thesis
    by (simp add: nth_append)
qed

lemma rx_scan_token:
  assumes "NUL \<notin> set T" "length T + 1 + length r < 256"
  shows "unat j \<le> length T \<Longrightarrow>
         rx_scan str (T @ NUL # r) k j = rx_scan str (T @ [NUL]) k j \<and>
         (\<forall>j'. rx_scan str (T @ [NUL]) k j = Inr j' \<longrightarrow> unat j' \<le> length T)"
proof (induction str "T @ [NUL]" k j rule: rx_scan.induct)
  case (1 str k j)
  from assms(2) have len: "length T + 1 + length ([] :: string) < 256"
    by simp
  note rdr = rd_token [OF "1.prems" assms(2)] and rd0 = rd_token [OF "1.prems" len]
  show ?case
  proof (cases "rd str k")
    case (Inl e)
    then show ?thesis
      by (simp add: rx_scan.simps [of str _ k j])
  next
    case (Inr a)
    show ?thesis
    proof (cases "a = NUL \<or> (T @ [NUL]) ! unat j = NUL \<or> a \<noteq> (T @ [NUL]) ! unat j")
      case True
      with Inr rdr rd0 "1.prems" show ?thesis
        by (auto simp: rx_scan.simps [of str _ k j])
    next
      case False
      with token_nth_NUL [OF assms(1) "1.prems"] "1.prems" have lt: "unat j < length T"
        by auto
      with assms(2) have j1: "unat (j + 1) = unat j + 1"
        by (simp add: unat_word_ariths)
      with lt have le: "unat (j + 1) \<le> length T"
        by simp
      from "1.hyps" [OF Inr _ _ _ _ le] False Inr rd0
      have "rx_scan str (T @ NUL # r) (k + 1) (j + 1) = rx_scan str (T @ [NUL]) (k + 1) (j + 1) \<and>
            (\<forall>j'. rx_scan str (T @ [NUL]) (k + 1) (j + 1) = Inr j' \<longrightarrow> unat j' \<le> length T)"
        by simp
      with False Inr rdr rd0 show ?thesis
        by (simp add: rx_scan.simps [of str _ k j])
    qed
  qed
qed

lemma takeWhile_token:
  "NUL \<notin> set T \<Longrightarrow> takeWhile (\<lambda>c. c \<noteq> NUL) (T @ NUL # r) = T"
  by (induction T) auto

lemma cstr_token: "NUL \<notin> set T \<Longrightarrow> cstr (T @ NUL # r) = Inr T"
  by (simp add: cstr_def takeWhile_token)

lemma strlen_token: "NUL \<notin> set T \<Longrightarrow> strlen (T @ NUL # r) = Inr (length T)"
  by (simp add: strlen_def cstr_token)

lemma rx_search_token:
  assumes "NUL \<notin> set T" "length T + 1 + length r < 256"
  shows "unat j \<le> length T \<Longrightarrow>
         rx_search str (T @ NUL # r) n i j = rx_search str (T @ [NUL]) n i j"
proof (induction str "T @ [NUL]" n i j rule: rx_search.induct)
  case (1 str n i j)
  from assms(2) have len: "length T + 1 + length ([] :: string) < 256"
    by simp
  note rdr = rd_token [OF "1.prems" assms(2)] and rd0 = rd_token [OF "1.prems" len]
  note sl = strlen_token [OF assms(1), of r] strlen_token [OF assms(1), of "[]"]
  have z: "unat (0 :: 8 word) \<le> length T"
    by simp
  note scan = rx_scan_token [OF assms z, of str i]
  show ?case
  proof (cases "i < n")
    case False
    then show ?thesis
      by (simp add: rx_search.simps [of str _ n i j])
  next
    case lt: True
    show ?thesis
    proof (cases "rd str i")
      case (Inl e)
      with lt show ?thesis
        by (simp add: rx_search.simps [of str _ n i j])
    next
      case (Inr a)
      show ?thesis
      proof (cases "a = (T @ [NUL]) ! unat j")
        case False
        with "1.hyps"(2) [OF lt Inr rd0 _ "1.prems"] lt Inr rdr rd0 show ?thesis
          by (simp add: rx_search.simps [of str _ n i j])
      next
        case True
        show ?thesis
        proof (cases "rx_scan str (T @ [NUL]) i 0")
          case (Inl e)
          with True lt Inr rdr rd0 scan show ?thesis
            by (simp add: rx_search.simps [of str _ n i j])
        next
          case j': (Inr j')
          with scan have le: "unat j' \<le> length T"
            by simp
          show ?thesis
          proof (cases "unat j' = length T")
            case True
            with j' \<open>a = (T @ [NUL]) ! unat j\<close> lt Inr rdr rd0 scan sl show ?thesis
              by (simp add: rx_search.simps [of str _ n i j])
          next
            case False
            from "1.hyps"(1) [OF lt Inr rd0 \<open>a = (T @ [NUL]) ! unat j\<close> j' _ _ le] sl False
            have "rx_search str (T @ NUL # r) n (i + 1) j' = rx_search str (T @ [NUL]) n (i + 1) j'"
              by simp
            with False j' \<open>a = (T @ [NUL]) ! unat j\<close> lt Inr rdr rd0 scan sl show ?thesis
              by (simp add: rx_search.simps [of str _ n i j])
          qed
        qed
      qed
    qed
  qed
qed

lemma is_in_rx_buffer_token:
  assumes "NUL \<notin> set T" "length T + 1 + length r < 256"
  shows "is_in_rx_buffer str (T @ NUL # r) n = is_in_rx_buffer str (flash T) n"
  using rx_search_token [OF assms, of 0 str n 0] by (simp add: is_in_rx_buffer_def flash_def)

text \<open>
  One direction of the claim does hold: when the function returns 1, the token occurs in
  the array. The inner loop only advances over equal bytes that are not NUL.
\<close>

lemma rd_Inr: "rd a i = Inr c \<Longrightarrow> unat i < length a \<and> length a < 256 \<and> c = a ! unat i"
  by (auto simp: rd_def split: if_splits)

lemma rx_scan_matches:
  "rx_scan str sub k j = Inr j' \<Longrightarrow>
   \<exists>l. unat j' = unat j + l \<and> l \<le> length (drop (unat k) str) \<and>
       l \<le> length (drop (unat j) sub) \<and>
       take l (drop (unat k) str) = take l (drop (unat j) sub)"
proof (induction str sub k j rule: rx_scan.induct)
  case (1 str sub k j)
  from "1.prems" obtain a where a: "rd str k = Inr a"
    by (subst (asm) rx_scan.simps) (auto split: sum.splits)
  show ?case
  proof (cases "a = NUL")
    case True
    with "1.prems" a have "j' = j"
      by (subst (asm) rx_scan.simps) simp
    then show ?thesis
      by (intro exI [of _ 0]) simp
  next
    case False
    with "1.prems" a obtain b where b: "rd sub j = Inr b"
      by (subst (asm) rx_scan.simps) (auto split: sum.splits)
    show ?thesis
    proof (cases "b = NUL \<or> a \<noteq> b")
      case True
      with "1.prems" a b False have "j' = j"
        by (subst (asm) rx_scan.simps) (auto split: if_splits)
      then show ?thesis
        by (intro exI [of _ 0]) simp
    next
      case nb: False
      with "1.prems" a b False have rec: "rx_scan str sub (k + 1) (j + 1) = Inr j'"
        by (subst (asm) rx_scan.simps) simp
      from nb have "b \<noteq> NUL" "\<not> a \<noteq> b" by simp_all
      from "1.IH" [OF a False b this rec] obtain l
        where l: "unat j' = unat (j + 1) + l" "l \<le> length (drop (unat (k + 1)) str)"
          "l \<le> length (drop (unat (j + 1)) sub)"
          "take l (drop (unat (k + 1)) str) = take l (drop (unat (j + 1)) sub)"
        by blast
      from rd_Inr [OF a] rd_Inr [OF b]
      have k: "unat k < length str" "unat (k + 1) = Suc (unat k)" "a = str ! unat k"
        and j: "unat j < length sub" "unat (j + 1) = Suc (unat j)" "b = sub ! unat j"
        by (simp_all add: unat_word_ariths)
      from k(1) j(1) have d: "drop (unat k) str = str ! unat k # drop (Suc (unat k)) str"
        "drop (unat j) sub = sub ! unat j # drop (Suc (unat j)) sub"
        by (simp_all add: Cons_nth_drop_Suc)
      from l k j nb show ?thesis
        by (intro exI [of _ "Suc l"]) (simp add: d)
    qed
  qed
qed

lemma rx_search_sound:
  "rx_search str sub n i j = Inr 1 \<Longrightarrow> \<exists>T. cstr sub = Inr T \<and> sublist T str"
proof (induction str sub n i j rule: rx_search.induct)
  case (1 str sub n i j)
  from "1.prems" have lt: "i < n"
    by (subst (asm) rx_search.simps) (auto split: if_splits)
  with "1.prems" obtain a b where a: "rd str i = Inr a" and b: "rd sub j = Inr b"
    by (subst (asm) rx_search.simps) (auto split: sum.splits)
  show ?case
  proof (cases "a = b")
    case False
    with "1.prems" lt a b have "rx_search str sub n (i + 1) j = Inr 1"
      by (subst (asm) rx_search.simps) simp
    from "1.IH"(2) [OF lt a b False this] show ?thesis .
  next
    case True
    with "1.prems" lt a b obtain j' m
      where scan: "rx_scan str sub i 0 = Inr j'" and m: "strlen sub = Inr m"
      by (subst (asm) rx_search.simps) (auto split: sum.splits)
    show ?thesis
    proof (cases "unat j' = m")
      case False
      with "1.prems" lt a b True scan m have "rx_search str sub n (i + 1) j' = Inr 1"
        by (subst (asm) rx_search.simps) simp
      from "1.IH"(1) [OF lt a b True scan m False this] show ?thesis .
    next
      case found: True
      from m obtain T where T: "cstr sub = Inr T" "length T = m"
        by (auto simp: strlen_def split: sum.splits)
      then have "T = takeWhile (\<lambda>c. c \<noteq> NUL) sub"
        by (auto simp: cstr_def split: if_splits)
      with T(2) have Tm: "T = take m sub"
        using takeWhile_eq_take [of "\<lambda>c. c \<noteq> NUL" sub] by simp
      from rx_scan_matches [OF scan] found
      have "m \<le> length (drop (unat i) str)" "take m (drop (unat i) str) = take m sub"
        by simp_all
      with Tm have "str = take (unat i) str @ T @ drop m (drop (unat i) str)"
        by (metis append_take_drop_id)
      then have "sublist T str"
        unfolding sublist_def by blast
      with T(1) show ?thesis
        by blast
    qed
  qed
qed

lemma is_in_rx_buffer_sound:
  "is_in_rx_buffer str sub n = Inr 1 \<Longrightarrow> \<exists>T. cstr sub = Inr T \<and> sublist T str"
  unfolding is_in_rx_buffer_def by (rule rx_search_sound)

text \<open>
  And a token at the very start of the buffer is found: there \<open>j\<close> is still 0 when the
  first byte is tested.
\<close>

lemma rx_scan_at_start:
  assumes "NUL \<notin> set T" "length T < length str" "length str < 256"
    and "take (length T) str = T" "length T + 1 + length r < 256"
  shows "unat k = unat j \<Longrightarrow> unat j \<le> length T \<Longrightarrow>
         rx_scan str (T @ NUL # r) k j = Inr (of_nat (length T))"
proof (induction "length T - unat j" arbitrary: k j)
  case 0
  then have j: "unat j = length T" by simp
  then have "of_nat (length T) = j"
    by (metis of_nat_unat ucast_id)
  moreover from j "0.prems" assms have "rd str k = Inr (str ! length T)"
    "rd (T @ NUL # r) j = Inr NUL"
    by (simp_all add: rd_def nth_append)
  ultimately show ?case
    by (simp add: rx_scan.simps [of str _ k j])
next
  case (Suc d)
  then have lt: "unat j < length T" by simp
  with assms "Suc.prems" have step: "unat (k + 1) = unat (j + 1)" "unat (j + 1) = unat j + 1"
    by (simp_all add: unat_word_ariths)
  from lt assms(4) have eq: "str ! unat j = T ! unat j"
    by (metis nth_take)
  from lt assms(1) have nn: "T ! unat j \<noteq> NUL"
    by (metis nth_mem)
  from lt assms "Suc.prems" eq have "rd str k = Inr (T ! unat j)" "rd (T @ NUL # r) j = Inr (T ! unat j)"
    by (simp_all add: rd_def nth_append)
  moreover have "rx_scan str (T @ NUL # r) (k + 1) (j + 1) = Inr (of_nat (length T))"
    using Suc.hyps(2) lt step by (intro Suc.hyps(1)) simp_all
  ultimately show ?case
    using nn by (simp add: rx_scan.simps [of str _ k j])
qed

lemma is_in_rx_buffer_at_start:
  assumes "T \<noteq> []" "NUL \<notin> set T" "length T < length str" "length str < 256"
    and "take (length T) str = T" "length T + 1 + length r < 256" "0 < n"
  shows "is_in_rx_buffer str (T @ NUL # r) n = Inr 1"
proof -
  from assms(1,3,5) have "str ! 0 = T ! 0"
    by (metis length_greater_0_conv nth_take)
  moreover from assms(1,3) have "str \<noteq> []" "0 < length T"
    by auto
  ultimately have rd: "rd str 0 = Inr (T ! 0)" "rd (T @ NUL # r) 0 = Inr (T ! 0)"
    using assms by (simp_all add: rd_def nth_append)
  have scan: "rx_scan str (T @ NUL # r) 0 0 = Inr (of_nat (length T))"
    by (rule rx_scan_at_start [OF assms(2-6)]) simp_all
  from assms(6) have "unat (of_nat (length T) :: 8 word) = length T"
    by (simp add: unat_of_nat)
  with rd scan strlen_token [OF assms(2), of r] assms(7) show ?thesis
    by (simp add: is_in_rx_buffer_def rx_search.simps [of str _ n 0 0])
qed

section \<open>The line readers\<close>

text \<open>
  Inside the loop \<open>response_pos\<close> never gets ahead of the pass counter \<open>i\<close>, and a
  payload byte is stored only while \<open>i < 150\<close>; the terminating NUL goes to an index of
  at most 150.
\<close>

lemma word150_succ:
  fixes p i :: "8 word"
  assumes "p \<le> i" "i < 150"
  shows "p + 1 \<le> i + 1" "unat p < 170" "p \<le> i + 1"
proof -
  from assms have a: "unat p \<le> unat i" "unat i < 150"
    by (simp_all add: word_le_nat_alt word_less_nat_alt)
  then have b: "unat (p + 1) = unat p + 1" "unat (i + 1) = unat i + 1"
    by (simp_all add: unat_word_ariths)
  with a show "p + 1 \<le> i + 1" "unat p < 170" "p \<le> i + 1"
    by (simp_all add: word_le_nat_alt)
qed

lemma readline_body_safe:
  assumes "length (response st) = 170" "response_pos st \<le> i" "i < 150"
  shows "readline_body i st \<noteq> Inl OutOfBounds"
    and "readline_body i st = Inr (w, st') \<Longrightarrow>
           length (response st') = 170 \<and> response_pos st' \<le> i + 1"
proof -
  note w = word150_succ [OF assms(2,3)]
  show "readline_body i st \<noteq> Inl OutOfBounds"
    using assms(1) w
    by (auto simp: readline_body_def receive_uart_def readline_store_def readline_eol_def wr_def
             split: list.splits)
  show "readline_body i st = Inr (w, st') \<Longrightarrow>
           length (response st') = 170 \<and> response_pos st' \<le> i + 1"
    using assms(1) w
    by (auto simp: readline_body_def receive_uart_def readline_store_def readline_eol_def wr_def
             split: list.splits if_splits)
qed

lemma readline_loop_safe:
  "length (response st) = 170 \<Longrightarrow> response_pos st \<le> i \<Longrightarrow> i < 150 \<Longrightarrow>
   readline_loop i st \<noteq> Inl OutOfBounds"
proof (induction i st rule: readline_loop.induct)
  case (1 i st)
  show ?case
  proof (cases "readline_body i st")
    case (Inl e)
    with readline_body_safe(1) [OF "1.prems"] show ?thesis
      by (subst readline_loop.simps) auto
  next
    case (Inr p)
    obtain w st' where p: "p = (w, st')" by (cases p)
    from readline_body_safe(2) [OF "1.prems"] Inr p
    have inv: "length (response st') = 170" "response_pos st' \<le> i + 1"
      by auto
    show ?thesis
    proof (cases "\<not> w \<and> i + 1 < 150")
      case True
      with "1.IH" [of p w st'] Inr p inv have "readline_loop (i + 1) st' \<noteq> Inl OutOfBounds"
        by simp
      with Inr p True show ?thesis
        by (subst readline_loop.simps) simp
    next
      case False
      with Inr p show ?thesis
        by (subst readline_loop.simps) auto
    qed
  qed
qed

lemma readsmstxt_body_safe:
  assumes "length (smstext st) = 170" "smstext_pos st \<le> i" "i < 150"
  shows "readsmstxt_body i st \<noteq> Inl OutOfBounds"
    and "readsmstxt_body i st = Inr (w, st') \<Longrightarrow>
           length (smstext st') = 170 \<and> smstext_pos st' \<le> i + 1"
proof -
  note w = word150_succ [OF assms(2,3)]
  show "readsmstxt_body i st \<noteq> Inl OutOfBounds"
    using assms(1) w
    by (auto simp: readsmstxt_body_def receive_uart_def readsmstxt_store_def readsmstxt_eol_def wr_def
             split: list.splits)
  show "readsmstxt_body i st = Inr (w, st') \<Longrightarrow>
           length (smstext st') = 170 \<and> smstext_pos st' \<le> i + 1"
    using assms(1) w
    by (auto simp: readsmstxt_body_def receive_uart_def readsmstxt_store_def readsmstxt_eol_def wr_def
             split: list.splits if_splits)
qed

lemma readsmstxt_loop_safe:
  "length (smstext st) = 170 \<Longrightarrow> smstext_pos st \<le> i \<Longrightarrow> i < 150 \<Longrightarrow>
   readsmstxt_loop i st \<noteq> Inl OutOfBounds"
proof (induction i st rule: readsmstxt_loop.induct)
  case (1 i st)
  show ?case
  proof (cases "readsmstxt_body i st")
    case (Inl e)
    with readsmstxt_body_safe(1) [OF "1.prems"] show ?thesis
      by (subst readsmstxt_loop.simps) auto
  next
    case (Inr p)
    obtain w st' where p: "p = (w, st')" by (cases p)
    from readsmstxt_body_safe(2) [OF "1.prems"] Inr p
    have inv: "length (smstext st') = 170" "smstext_pos st' \<le> i + 1"
      by auto
    show ?thesis
    proof (cases "\<not> w \<and> i + 1 < 150")
      case True
      with "1.IH" [of p w st'] Inr p inv have "readsmstxt_loop (i + 1) st' \<noteq> Inl OutOfBounds"
        by simp
      with Inr p True show ?thesis
        by (subst readsmstxt_loop.simps) simp
    next
      case False
      with Inr p show ?thesis
        by (subst readsmstxt_loop.simps) auto
    qed
  qed
qed

text \<open>
  A line longer than the buffer: the first 150 bytes are stored, the loop ends on its
  fuse and the rest of the line stays in the receiver.
\<close>

lemma readline_long_line:
  "map_sum id (\<lambda>(r, s). (r, response s, rx s)) (readline long_line) =
     Inr (1, replicate 150 (CHR ''A'') @ ''12345678901234567890'', replicate 50 (CHR ''A''))"
  by code_simp

text \<open>
  C3. For every input byte sequence, \<open>readline\<close> and \<open>readsmstxt\<close> never store at an
  index at or beyond the capacity of their 170-byte buffers: whatever the modem sends,
  neither call ends in an out-of-bounds access.
\<close>

theorem line_readers_stay_in_bounds:
  "wf_state st \<Longrightarrow> readline st \<noteq> Inl OutOfBounds \<and> readsmstxt st \<noteq> Inl OutOfBounds"
proof -
  assume wf: "wf_state st"
  have "readline_loop 0 (st\<lparr>response_pos := 0\<rparr>) \<noteq> Inl OutOfBounds"
    using wf by (intro readline_loop_safe) (simp_all add: wf_state_def)
  moreover have "readsmstxt_loop 0 (st\<lparr>smstext_pos := 0\<rparr>) \<noteq> Inl OutOfBounds"
    using wf by (intro readsmstxt_loop_safe) (simp_all add: wf_state_def)
  ultimately show ?thesis
    by (auto simp: readline_def readsmstxt_def split: sum.splits)
qed

theorem line_readers_stay_in_bounds_witness:
  "wf_state long_line \<and> readline long_line \<noteq> Inl OutOfBounds \<and>
   readsmstxt long_line \<noteq> Inl OutOfBounds"
proof -
  have wf: "wf_state long_line"
    by code_simp
  from line_readers_stay_in_bounds [OF wf] wf show ?thesis
    by simp
qed

section \<open>The bring-up probe\<close>


text \<open>A modem that answers the probe with \<open>OK\<close> ends the loop at the first pass.\<close>

lemma checkat_ok:
  "map_sum id (\<lambda>(r, s). (r, tx s))
     (checkat (initial_state\<lparr>rx := [CR, LF] @ ''OK'' @ [CR, LF]\<rparr>)) =
   Inr (1, [Puts_P AT, Delay_sec 1, Delay_sec 1, Puts_P ECHO_OFF, Delay_sec 1])"
  by code_simp

text \<open>
  The echo-only modem. After the first pass \<open>response\<close> holds \<open>echo_response\<close> and
  \<open>buf\<close> holds \<open>ok_buf\<close>; every later pass reads one more echoed line and leaves both as
  they are.
\<close>

lemma matcher_on_echo: "is_in_rx_buffer echo_response ok_buf BUFFER_SIZE = Inr 0"
  by code_simp

lemma echo_response_length: "length echo_response = 170"
  by code_simp

lemma echo_response_fixed:
  "echo_response[0 := CHR ''A'', 1 := CHR ''T'', 2 := NUL] = echo_response"
  by code_simp

lemma initial_response_length: "length (response initial_state) = 170"
  by code_simp

lemma initial_response_echo:
  "(response initial_state)[0 := CHR ''A'', 1 := CHR ''T'', 2 := NUL] = echo_response"
  by code_simp

lemma initial_buf_ok: "memcpy_P (buf initial_state) ISOK (sizeof ISOK) = Inr ok_buf"
  by code_simp

lemma readline_echo:
  assumes "length (response st) = 170" "rx st = CHR ''A'' # CHR ''T'' # CR # rest"
  shows "readline st =
           Inr (1, st\<lparr>response := (response st)[0 := CHR ''A'', 1 := CHR ''T'', 2 := NUL],
                      response_pos := 0, rx := rest\<rparr>)"
  using assms
  by (simp add: readline_def readline_loop.simps [of 0] readline_loop.simps [of 1]
        readline_loop.simps [of 2] readline_body_def receive_uart_def readline_store_def
        readline_eol_def wr_def CR_def LF_def NUL_def)

lemma checkat_loop_echo_only:
  "length (response st) = 170 \<Longrightarrow>
   (response st)[0 := CHR ''A'', 1 := CHR ''T'', 2 := NUL] = echo_response \<Longrightarrow>
   memcpy_P (buf st) ISOK (sizeof ISOK) = Inr ok_buf \<Longrightarrow>
   rx st = concat (replicate n AT) \<Longrightarrow>
   checkat_loop st = Inl Blocked"
proof (induction n arbitrary: st)
  case 0
  then show ?case
    by (simp add: checkat_loop.simps [of st] readline_def readline_loop.simps [of 0]
          readline_body_def receive_uart_def emit_def)
next
  case (Suc n)
  let ?st0 = "emit (Puts_P AT) st"
  let ?st1 = "?st0\<lparr>response := echo_response, response_pos := 0, rx := concat (replicate n AT)\<rparr>"
  let ?st2 = "emit (Delay_sec 1) (?st1\<lparr>buf := ok_buf\<rparr>)"
  from Suc.prems have line: "readline ?st0 = Inr (1, ?st1)"
    using readline_echo [of ?st0 "concat (replicate n AT)"]
    by (simp add: emit_def AT_def)
  from Suc.prems have found: "response_has ISOK ?st1 = Inr (0, ?st1\<lparr>buf := ok_buf\<rparr>)"
    by (simp add: response_has_def emit_def matcher_on_echo)
  have "checkat_loop ?st2 = Inl Blocked"
  proof (rule Suc.IH)
    show "length (response ?st2) = 170"
      by (simp add: emit_def echo_response_length)
    show "(response ?st2)[0 := CHR ''A'', 1 := CHR ''T'', 2 := NUL] = echo_response"
      using echo_response_fixed by (simp add: emit_def)
    show "memcpy_P (buf ?st2) ISOK (sizeof ISOK) = Inr ok_buf"
      by (simp add: emit_def ok_buf_def memcpy_P_def memcpy_def flash_def sizeof_def ISOK_def)
    show "rx ?st2 = concat (replicate n AT)"
      by (simp add: emit_def)
  qed
  with line found show ?case
    by (simp add: checkat_loop.simps [of st])
qed

text \<open>
  C9. The claim: \<open>checkat\<close> ends, returning 1, as soon as the reply line of some attempt
  holds \<open>OK\<close> or the echoed \<open>AT\<close>, so that a modem which only echoes the probe gets
  the loop to exit. The code never tests for the echo: started at power-on on a modem
  that answers each probe with the echo alone, it has not returned after any number \<open>n\<close>
  of echoed probes and is waiting for the next line.
\<close>

theorem checkat_echo_only_never_returns:
  "checkat (initial_state\<lparr>rx := concat (replicate n AT)\<rparr>) = Inl Blocked"
proof -
  let ?st = "initial_state\<lparr>rx := concat (replicate n AT)\<rparr>"
  have "checkat_loop ?st = Inl Blocked"
  proof (rule checkat_loop_echo_only)
    show "length (response ?st) = 170"
      by (simp add: initial_response_length)
    show "(response ?st)[0 := CHR ''A'', 1 := CHR ''T'', 2 := NUL] = echo_response"
      using initial_response_echo by simp
    show "memcpy_P (buf ?st) ISOK (sizeof ISOK) = Inr ok_buf"
      by (simp add: initial_buf_ok)
    show "rx ?st = concat (replicate n AT)"
      by simp
  qed
  then show ?thesis
    by (simp add: checkat_def)
qed

section \<open>The movement check of Guard mode\<close>

subsection \<open>Effects of the block\<close>

text \<open>
  The two halves of the block: storing the new position as the previous one (lines
  1484--1488) and sending the alert (lines 1449--1482).
\<close>

lemma remember_position_frame:
  "remember_position st = Inr st' \<Longrightarrow>
   tx st' = tx st \<and> continousgps st' = continousgps st"
  by (auto simp: remember_position_def split: sum.splits)

lemma remember_position_old:
  assumes "remember_position st = Inr st'"
  shows "take 10 (latitudegpsold st') = take 10 (latitudegps st) \<and>
         latitudegpsold st' ! 10 = NUL \<and>
         take 11 (longtitudegpsold st') = take 11 (longtitudegps st) \<and>
         longtitudegpsold st' ! 11 = NUL"
  using assms
  by (auto simp: remember_position_def memcpy_def wr_def nth_append split: sum.splits if_splits)

lemma guard_alert_effect:
  assumes "guard_alert st = Inr st'"
  shows "\<exists>num lat long. tx st' = tx st @ alert_events num lat long \<and> continousgps st' = 1"
  using assms
  by (auto simp: guard_alert_def sms_open_def uart_puts_def alert_events_def
           split: sum.splits)



lemma cstr_Inr_NUL: "cstr a = Inr s \<Longrightarrow> NUL \<in> set a"
  by (simp add: cstr_def split: if_splits)

lemma remember_position_returns:
  "wf_state st \<Longrightarrow> \<exists>st'. remember_position st = Inr st'"
  by (simp add: remember_position_def memcpy_def wr_def wf_state_def)

lemma guard_alert_returns:
  assumes "cstr (phonenumber st) = Inr num" "cstr (latitudegps st) = Inr lat"
    "cstr (longtitudegps st) = Inr long"
  shows "\<exists>st'. guard_alert st = Inr st' \<and> tx st' = tx st @ alert_events num lat long \<and>
           continousgps st' = 1 \<and> wf_state st' = wf_state st"
  using assms
  by (simp add: guard_alert_def sms_open_def uart_puts_def alert_events_def wf_state_def)

text \<open>
  The block as a whole: it returns, the alert SMS is the only thing it can send, and it
  sends it exactly when the guard of line 1433 and the test of line 1445 both hold.
\<close>

lemma main_guard_check_effect:
  assumes "wf_state st" "gpsdataavailable st = 1" "continousgps st = 255"
    and "cstr (latitudegpsold st) = Inr latold" "cstr (longtitudegpsold st) = Inr longold"
    and "cstr (latitudegps st) = Inr lat" "cstr (longtitudegps st) = Inr long"
    and "cstr (phonenumber st) = Inr num"
  shows "\<exists>st'. main_guard_check F st = Inr st' \<and>
           sent_since st st' =
             (if \<not> fp_eq F (atof F latold) (fp_zero F) \<and>
                 \<not> fp_eq F (atof F longold) (fp_zero F) \<and> fp_moved F latold longold lat long
              then alert_events num lat long else []) \<and>
           continousgps st' =
             (if \<not> fp_eq F (atof F latold) (fp_zero F) \<and>
                 \<not> fp_eq F (atof F longold) (fp_zero F) \<and> fp_moved F latold longold lat long
              then 1 else 255)"
proof (cases "\<not> fp_eq F (atof F latold) (fp_zero F) \<and>
              \<not> fp_eq F (atof F longold) (fp_zero F) \<and> fp_moved F latold longold lat long")
  case True
  from guard_alert_returns [OF assms(8,6,7)] obtain st1
    where a: "guard_alert st = Inr st1" "tx st1 = tx st @ alert_events num lat long"
      "continousgps st1 = 1" "wf_state st1"
    using assms(1) by auto
  from remember_position_returns [OF a(4)] obtain st'
    where r: "remember_position st1 = Inr st'" ..
  from True assms a(1) r have "main_guard_check F st = Inr st'"
    by (simp add: main_guard_check_def guard_compare_def fp_moved_def)
  with True a remember_position_frame [OF r] show ?thesis
    by simp
next
  case False
  from remember_position_returns [OF assms(1)] obtain st'
    where r: "remember_position st = Inr st'" ..
  from False assms r have "main_guard_check F st = Inr st'"
    by (auto simp: main_guard_check_def guard_compare_def fp_moved_def)
  with False assms(3) remember_position_frame [OF r] show ?thesis
    by auto
qed

lemma guard_check_skipped:
  assumes "cstr (latitudegpsold st) = Inr latold" "cstr (longtitudegpsold st) = Inr longold"
    and "fp_eq F (atof F latold) (fp_zero F) \<or> fp_eq F (atof F longold) (fp_zero F)"
  shows "main_guard_check F st = remember_position st"
  using assms by (auto simp: main_guard_check_def)

subsection \<open>The example fixes\<close>

text \<open>
  The fields of the example states that the block reads.
\<close>

lemma same_place_facts:
  "wf_state same_place" "gpsdataavailable same_place = 1" "continousgps same_place = 255"
  "cstr (latitudegpsold same_place) = Inr ''52.000000''"
  "cstr (longtitudegpsold same_place) = Inr ''21.000000''"
  "cstr (latitudegps same_place) = Inr ''52.000000''"
  "cstr (longtitudegps same_place) = Inr ''21.000000''"
  "cstr (phonenumber same_place) = Inr ''+48123456789''"
  by code_simp+

lemma moved_north_facts:
  "wf_state moved_north" "gpsdataavailable moved_north = 1" "continousgps moved_north = 255"
  "cstr (latitudegpsold moved_north) = Inr ''52.000000''"
  "cstr (longtitudegpsold moved_north) = Inr ''21.000000''"
  "cstr (latitudegps moved_north) = Inr ''52.003000''"
  "cstr (longtitudegps moved_north) = Inr ''21.000000''"
  "cstr (phonenumber moved_north) = Inr ''+48123456789''"
  by code_simp+


lemma on_meridian_facts:
  "wf_state on_meridian"
  "cstr (latitudegpsold on_meridian) = Inr ''51.477000''"
  "cstr (longtitudegpsold on_meridian) = Inr ''0.000000''"
  by code_simp+

lemma first_fix_facts:
  "wf_state first_fix" "gpsdataavailable first_fix = 1" "continousgps first_fix = 255"
  "cstr (latitudegpsold first_fix) = Inr (replicate 19 (CHR ''0''))"
  "cstr (longtitudegpsold first_fix) = Inr (replicate 19 (CHR ''0''))"
  "cstr (latitudegps first_fix) = Inr ''52.000000''"
  "cstr (longtitudegps first_fix) = Inr ''21.000000''"
  "cstr (phonenumber first_fix) = Inr ''+48123456789''"
  by code_simp+

text \<open>
  The values \<open>atof_decimal\<close> gives to the coordinate strings of the examples, and to a
  string of zeros of any length.
\<close>

lemma atof_decimal_values:
  "atof_decimal ''52.000000'' = 52" "atof_decimal ''52.003000'' = 52003 / 1000"
  "atof_decimal ''21.000000'' = 21" "atof_decimal ''21.500000'' = 43 / 2"
  "atof_decimal ''0.000000'' = 0"
  by (simp_all add: atof_decimal_def atof_unsigned_def is_digit_def digits_value_def)

lemma digits_value_zeros:
  "set s \<subseteq> {CHR ''0''} \<Longrightarrow> foldl (\<lambda>n c. 10 * n + (of_char c - of_char (CHR ''0''))) 0 s = (0::nat)"
  by (induction s) auto

lemma atof_decimal_zeros: "set s \<subseteq> {CHR ''0''} \<Longrightarrow> atof_decimal s = 0"
proof (cases s)
  case Nil
  then show ?thesis by (simp add: atof_decimal_def)
next
  case (Cons c t)
  assume z: "set s \<subseteq> {CHR ''0''}"
  then have "takeWhile is_digit s = s" "dropWhile is_digit s = []"
    by (auto simp: is_digit_def takeWhile_eq_all_conv)
  with z Cons show ?thesis
    using digits_value_zeros [OF z]
    by (auto simp: atof_decimal_def atof_unsigned_def digits_value_def)
qed

lemma decimal_fpu_simps [simp]:
  "atof decimal_fpu = atof_decimal" "fp_zero decimal_fpu = 0"
  "fp_threshold decimal_fpu = 27 / 10000" "fp_minus decimal_fpu x y = x - y"
  "fp_less decimal_fpu x y = (x < y)" "fp_eq decimal_fpu x y = (x = y)"
  by (simp_all add: decimal_fpu_def)

text \<open>The two examples of the specification, in exact decimal arithmetic.\<close>

lemma same_place_no_alert:
  "\<exists>st'. main_guard_check decimal_fpu same_place = Inr st' \<and>
         sent_since same_place st' = [] \<and> continousgps st' = 255"
  using main_guard_check_effect [OF same_place_facts, of decimal_fpu]
  by (simp add: fp_moved_def fp_abs_def atof_decimal_values)

lemma moved_north_alert:
  "\<exists>st'. main_guard_check decimal_fpu moved_north = Inr st' \<and>
         sent_since moved_north st' = alert_events ''+48123456789'' ''52.003000'' ''21.000000'' \<and>
         continousgps st' = 1"
  using main_guard_check_effect [OF moved_north_facts, of decimal_fpu]
  by (simp add: fp_moved_def fp_abs_def atof_decimal_values)

subsection \<open>The alert condition\<close>




text \<open>
  C6. While the stored previous fix is the all-zero sentinel, and \<open>atof\<close> reads a string
  of zeros as 0, a Guard-mode pass sends nothing; it only stores the new position as
  the baseline of the next comparison.
\<close>

theorem sentinel_never_alerts:
  assumes "wf_state st"
    and "cstr (latitudegpsold st) = Inr latold" "cstr (longtitudegpsold st) = Inr longold"
    and "all_zero_fix latold longold"
    and "\<And>s. set s \<subseteq> {CHR ''0''} \<Longrightarrow> fp_eq F (atof F s) (fp_zero F)"
  shows "\<exists>st'. main_guard_check F st = Inr st' \<and> sent_since st st' = [] \<and>
           take 10 (latitudegpsold st') = take 10 (latitudegps st) \<and>
           latitudegpsold st' ! 10 = NUL \<and>
           take 11 (longtitudegpsold st') = take 11 (longtitudegps st) \<and>
           longtitudegpsold st' ! 11 = NUL"
proof -
  from assms(4,5) have "fp_eq F (atof F latold) (fp_zero F)"
    by (simp add: all_zero_fix_def)
  then have skip: "main_guard_check F st = remember_position st"
    by (intro guard_check_skipped [OF assms(2,3)] disjI1)
  from remember_position_returns [OF assms(1)] obtain st'
    where r: "remember_position st = Inr st'" ..
  from remember_position_frame [OF r] remember_position_old [OF r] skip r
  show ?thesis
    by simp
qed

theorem sentinel_never_alerts_witness:
  "wf_state first_fix \<and>
   cstr (latitudegpsold first_fix) = Inr (replicate 19 (CHR ''0'')) \<and>
   cstr (longtitudegpsold first_fix) = Inr (replicate 19 (CHR ''0'')) \<and>
   all_zero_fix (replicate 19 (CHR ''0'')) (replicate 19 (CHR ''0'')) \<and>
   gpsdataavailable first_fix = 1 \<and> continousgps first_fix = 255 \<and>
   (\<exists>st'. main_guard_check decimal_fpu first_fix = Inr st' \<and> sent_since first_fix st' = [] \<and>
          take 10 (latitudegpsold st') = ''52.000000'' @ [NUL] \<and>
          take 10 (longtitudegpsold st') = ''21.000000'' @ [NUL])"
proof -
  have z: "all_zero_fix (replicate 19 (CHR ''0'')) (replicate 19 (CHR ''0''))"
    by (simp add: all_zero_fix_def)
  have new: "take 10 (latitudegps first_fix) = ''52.000000'' @ [NUL]"
    "take 11 (longtitudegps first_fix) = ''21.000000'' @ [NUL, NUL]"
    by code_simp+
  have "\<exists>st'. main_guard_check decimal_fpu first_fix = Inr st' \<and>
          sent_since first_fix st' = [] \<and>
          take 10 (latitudegpsold st') = take 10 (latitudegps first_fix) \<and>
          latitudegpsold st' ! 10 = NUL \<and>
          take 11 (longtitudegpsold st') = take 11 (longtitudegps first_fix) \<and>
          longtitudegpsold st' ! 11 = NUL"
    by (rule sentinel_never_alerts [OF first_fix_facts(1,4,5) z])
       (simp add: atof_decimal_zeros)
  then obtain st' where r: "main_guard_check decimal_fpu first_fix = Inr st'"
    and e: "sent_since first_fix st' = []"
    and la: "take 10 (latitudegpsold st') = take 10 (latitudegps first_fix)"
    and lo: "take 11 (longtitudegpsold st') = take 11 (longtitudegps first_fix)"
    by blast
  from arg_cong [OF lo, of "take 10"] new(2)
  have lo': "take 10 (longtitudegpsold st') = ''21.000000'' @ [NUL]"
    by simp
  from r e la lo' new(1) have "\<exists>st'. main_guard_check decimal_fpu first_fix = Inr st' \<and>
          sent_since first_fix st' = [] \<and>
          take 10 (latitudegpsold st') = ''52.000000'' @ [NUL] \<and>
          take 10 (longtitudegpsold st') = ''21.000000'' @ [NUL]"
    by simp
  with first_fix_facts z show ?thesis
    by blast
qed

text \<open>
  C10. If the stored previous latitude or the stored previous longitude parses to 0, the
  pass is the bare update of the stored position: the comparison is skipped and nothing
  is sent. One zero coordinate is enough; the other may be any value.
\<close>

theorem zero_coordinate_suppresses_alert:
  assumes "wf_state st"
    and "cstr (latitudegpsold st) = Inr latold" "cstr (longtitudegpsold st) = Inr longold"
    and "fp_eq F (atof F latold) (fp_zero F) \<or> fp_eq F (atof F longold) (fp_zero F)"
  shows "main_guard_check F st = remember_position st \<and>
         (\<exists>st'. main_guard_check F st = Inr st' \<and> sent_since st st' = [] \<and>
                continousgps st' = continousgps st)"
proof -
  have skip: "main_guard_check F st = remember_position st"
    by (rule guard_check_skipped [OF assms(2,3,4)])
  from remember_position_returns [OF assms(1)] obtain st'
    where r: "remember_position st = Inr st'" ..
  from remember_position_frame [OF r] skip r show ?thesis
    by simp
qed

theorem zero_coordinate_suppresses_alert_witness:
  "wf_state on_meridian \<and>
   cstr (latitudegpsold on_meridian) = Inr ''51.477000'' \<and>
   cstr (longtitudegpsold on_meridian) = Inr ''0.000000'' \<and>
   fp_eq decimal_fpu (atof decimal_fpu ''0.000000'') (fp_zero decimal_fpu) \<and>
   \<not> fp_eq decimal_fpu (atof decimal_fpu ''51.477000'') (fp_zero decimal_fpu) \<and>
   main_guard_check decimal_fpu on_meridian = remember_position on_meridian \<and>
   (\<exists>st'. main_guard_check decimal_fpu on_meridian = Inr st' \<and>
          sent_since on_meridian st' = [] \<and> continousgps st' = continousgps on_meridian)"
proof -
  have z: "fp_eq decimal_fpu (atof decimal_fpu ''0.000000'') (fp_zero decimal_fpu)"
    "\<not> fp_eq decimal_fpu (atof decimal_fpu ''51.477000'') (fp_zero decimal_fpu)"
    by (simp_all add: atof_decimal_def atof_unsigned_def is_digit_def digits_value_def)
  have "main_guard_check decimal_fpu on_meridian = remember_position on_meridian \<and>
        (\<exists>st'. main_guard_check decimal_fpu on_meridian = Inr st' \<and>
               sent_since on_meridian st' = [] \<and>
               continousgps st' = continousgps on_meridian)"
    by (rule zero_coordinate_suppresses_alert [OF on_meridian_facts]) (use z in simp)
  with z on_meridian_facts show ?thesis
    by blast
qed

section \<open>GPS acquisition\<close>




text \<open>
  On a fix the function first resets \<open>latitudegps\<close> and \<open>longtitudegps\<close> with
  \<open>memcpy_P(..., INITLOC, sizeof(INITLOC))\<close>. The flash array has 21 bytes, the
  destinations are declared with 20: the copy ends one byte behind each array.
\<close>

lemma readgpsinfo_fixed_overflows:
  "wf_state st \<Longrightarrow> readgpsinfo_fixed st = Inl OutOfBounds"
  by (simp add: readgpsinfo_fixed_def memcpy_P_def memcpy_def sizeof_def INITLOC_def
        wf_state_def)











section \<open>Network registration\<close>







section \<open>The SMS commands\<close>

text \<open>\<open>strupr\<close> applied to its own result changes nothing.\<close>

lemma of_char_toupper:
  "(of_char (toupper c) :: nat) =
     (if 97 \<le> (of_char c :: nat) \<and> (of_char c :: nat) \<le> 122 then of_char c - 32 else of_char c)"
proof (cases "97 \<le> (of_char c :: nat) \<and> (of_char c :: nat) \<le> 122")
  case True
  then have "(of_char c - 32 :: nat) mod 256 = of_char c - 32"
    by (intro mod_less) arith
  with True show ?thesis
    by (simp add: toupper_def Let_def)
next
  case False
  then show ?thesis
    by (auto simp: toupper_def Let_def)
qed

lemma toupper_idem: "toupper (toupper c) = toupper c"
proof -
  have "(of_char (toupper (toupper c)) :: nat) = of_char (toupper c)"
    unfolding of_char_toupper [of "toupper c"] by (simp add: of_char_toupper) arith
  then show ?thesis
    by (simp only: of_char_eq_iff)
qed

lemma toupper_NUL: "(toupper c = NUL) = (c = NUL)"
proof -
  have "((of_char (toupper c) :: nat) = of_char NUL) = ((of_char c :: nat) = of_char NUL)"
    by (auto simp: of_char_toupper NUL_def)
  then show ?thesis
    by (simp only: of_char_eq_iff)
qed

lemma strupr_idem:
  assumes "strupr a = Inr up"
  shows "strupr up = Inr up" "length up = length a"
proof -
  from assms obtain s where s: "cstr a = Inr s" and up: "up = map toupper s @ drop (length s) a"
    by (auto simp: strupr_def split: sum.splits)
  from s have nul: "NUL \<in> set a" and tw: "s = takeWhile (\<lambda>c. c \<noteq> NUL) a"
    by (auto simp: cstr_def split: if_splits)
  from tw have a: "a = s @ dropWhile (\<lambda>c. c \<noteq> NUL) a" and ns: "NUL \<notin> set s"
    by (auto dest: set_takeWhileD)
  from nul have ne: "dropWhile (\<lambda>c. c \<noteq> NUL) a \<noteq> []"
    by (auto simp: dropWhile_eq_Nil_conv)
  from hd_dropWhile [OF ne] have "hd (dropWhile (\<lambda>c. c \<noteq> NUL) a) = NUL"
    by simp
  with ne obtain t where dw: "dropWhile (\<lambda>c. c \<noteq> NUL) a = NUL # t"
    by (cases "dropWhile (\<lambda>c. c \<noteq> NUL) a") auto
  from a dw have a': "a = s @ NUL # t"
    by simp
  then have "drop (length s) a = NUL # t"
    by simp
  with up have up': "up = map toupper s @ NUL # t"
    by simp
  from ns have "NUL \<notin> set (map toupper s)"
    using toupper_NUL by (metis imageE list.set_map)
  from cstr_token [OF this, of t] up' have "cstr up = Inr (map toupper s)"
    by simp
  with up' show "strupr up = Inr up"
    by (simp add: strupr_def toupper_idem)
  from up' a' show "length up = length a"
    by (metis length_append length_map list.size(4))
qed

text \<open>The keyword test of a branch, in terms of the upper-cased body alone.\<close>

lemma memcpy_P_token:
  "length T + 1 \<le> length b \<Longrightarrow>
   memcpy_P b T (sizeof T) = Inr (T @ NUL # drop (length T + 1) b)"
  by (simp add: memcpy_P_def memcpy_def sizeof_def flash_def)

lemma smstext_has_eval:
  assumes "length (buf s) = 40" "NUL \<notin> set K" "length K < 40"
    and "strupr (smstext s) = Inr up" "is_in_rx_buffer up (flash K) BUFFER_SIZE = Inr m"
  shows "smstext_has K s =
           Inr (m, s\<lparr>buf := K @ NUL # drop (length K + 1) (buf s), smstext := up\<rparr>)"
proof -
  from assms(1,3) have "length K + 1 + length (drop (length K + 1) (buf s)) < 256"
    by simp
  from is_in_rx_buffer_token [OF assms(2) this] assms(5)
  have "is_in_rx_buffer up (K @ NUL # drop (length K + 1) (buf s)) BUFFER_SIZE = Inr m"
    by simp
  with assms(1,3,4) show ?thesis
    by (simp add: smstext_has_def memcpy_P_token)
qed

lemma keywords_no_NUL:
  "NUL \<notin> set ISMULTI" "NUL \<notin> set ISSINGLE" "NUL \<notin> set ISACTIVATE" "NUL \<notin> set ISGUARD"
  by (simp_all add: ISMULTI_def ISSINGLE_def ISACTIVATE_def ISGUARD_def NUL_def)

lemma keywords_length:
  "length ISMULTI = 5" "length ISSINGLE = 6" "length ISACTIVATE = 8" "length ISGUARD = 5"
  by (simp_all add: ISMULTI_def ISSINGLE_def ISACTIVATE_def ISGUARD_def)

lemma sms_multi_effect:
  assumes "dispatch_inv up num pn s" "is_in_rx_buffer up (flash ISMULTI) BUFFER_SIZE = Inr m"
  shows "\<exists>s'. sms_multi s = Inr s' \<and> dispatch_inv up num pn s' \<and>
           tx s' = tx s @ (if m = 1 then multi_events num else []) \<and>
           continousgps s' = (if m = 1 then 5 else continousgps s)"
proof -
  from assms(1) have inv: "length (buf s) = 40" "strupr (smstext s) = Inr up"
    "phonenumber s = pn" "cstr pn = Inr num" "length pn = 20"
    by (simp_all add: dispatch_inv_def)
  from smstext_has_eval [OF inv(1) keywords_no_NUL(1) _ inv(2) assms(2)]
  have "smstext_has ISMULTI s =
          Inr (m, s\<lparr>buf := ISMULTI @ NUL # drop 6 (buf s), smstext := up\<rparr>)"
    by (simp add: keywords_length)
  with inv strupr_idem(1) [OF inv(2)] show ?thesis
    by (simp add: sms_multi_def sms_open_def uart_puts_def wake_sim7000_def sms_close_def
          dispatch_inv_def multi_events_def wake_events_def sms_events_def keywords_length)
qed

lemma sms_single_effect:
  assumes "dispatch_inv up num pn s" "is_in_rx_buffer up (flash ISSINGLE) BUFFER_SIZE = Inr m"
  shows "\<exists>s'. sms_single s = Inr s' \<and> dispatch_inv up num pn s' \<and>
           tx s' = tx s @ (if m = 1 then single_events num else []) \<and>
           continousgps s' = (if m = 1 then 1 else continousgps s)"
proof -
  from assms(1) have inv: "length (buf s) = 40" "strupr (smstext s) = Inr up"
    "phonenumber s = pn" "cstr pn = Inr num" "length pn = 20"
    by (simp_all add: dispatch_inv_def)
  from smstext_has_eval [OF inv(1) keywords_no_NUL(2) _ inv(2) assms(2)]
  have "smstext_has ISSINGLE s =
          Inr (m, s\<lparr>buf := ISSINGLE @ NUL # drop 7 (buf s), smstext := up\<rparr>)"
    by (simp add: keywords_length)
  with inv strupr_idem(1) [OF inv(2)] show ?thesis
    by (simp add: sms_single_def sms_open_def uart_puts_def wake_sim7000_def sms_close_def
          dispatch_inv_def single_events_def wake_events_def sms_events_def keywords_length)
qed

lemma sms_activate_effect:
  assumes "dispatch_inv up num pn s" "is_in_rx_buffer up (flash ISACTIVATE) BUFFER_SIZE = Inr m"
  shows "\<exists>s'. sms_activate s = Inr s' \<and> dispatch_inv up num pn s' \<and>
           tx s' = tx s @ (if m = 1 then activate_events num pn else []) \<and>
           continousgps s' = (if m = 1 then 0 else continousgps s)"
proof -
  from assms(1) have inv: "length (buf s) = 40" "strupr (smstext s) = Inr up"
    "phonenumber s = pn" "cstr pn = Inr num" "length pn = 20"
    by (simp_all add: dispatch_inv_def)
  from smstext_has_eval [OF inv(1) keywords_no_NUL(3) _ inv(2) assms(2)]
  have "smstext_has ISACTIVATE s =
          Inr (m, s\<lparr>buf := ISACTIVATE @ NUL # drop 9 (buf s), smstext := up\<rparr>)"
    by (simp add: keywords_length)
  with inv strupr_idem(1) [OF inv(2)] show ?thesis
    by (simp add: sms_activate_def sms_open_def uart_puts_def wake_sim7000_def sms_close_def
          eeprom_write_block_def dispatch_inv_def activate_events_def wake_events_def
          sms_events_def keywords_length)
qed

lemma sms_guard_effect:
  assumes "dispatch_inv up num pn s" "is_in_rx_buffer up (flash ISGUARD) BUFFER_SIZE = Inr m"
  shows "\<exists>s'. sms_guard s = Inr s' \<and> dispatch_inv up num pn s' \<and>
           tx s' = tx s @ (if m = 1 then guard_events num else []) \<and>
           continousgps s' = (if m = 1 then 255 else continousgps s)"
proof -
  from assms(1) have inv: "length (buf s) = 40" "strupr (smstext s) = Inr up"
    "phonenumber s = pn" "cstr pn = Inr num" "length pn = 20"
    by (simp_all add: dispatch_inv_def)
  from smstext_has_eval [OF inv(1) keywords_no_NUL(4) _ inv(2) assms(2)]
  have "smstext_has ISGUARD s =
          Inr (m, s\<lparr>buf := ISGUARD @ NUL # drop 6 (buf s), smstext := up\<rparr>)"
    by (simp add: keywords_length)
  with inv strupr_idem(1) [OF inv(2)] show ?thesis
    by (simp add: sms_guard_def sms_open_def uart_puts_def wake_sim7000_def sms_close_def
          dispatch_inv_def guard_events_def wake_events_def sms_events_def keywords_length)
qed

text \<open>
  The dispatcher runs the branch of a keyword exactly when the matcher finds that keyword
  in the upper-cased body, whatever it finds for the other three; the mode it leaves is
  that of the last branch that ran.
\<close>

lemma main_sms_dispatch_effect:
  assumes "length (buf st) = 40" "length (phonenumber st) = 20"
    and "strupr (smstext st) = Inr up" "cstr (phonenumber st) = Inr num"
    and "is_in_rx_buffer up (flash ISMULTI) BUFFER_SIZE = Inr m1"
    and "is_in_rx_buffer up (flash ISSINGLE) BUFFER_SIZE = Inr m2"
    and "is_in_rx_buffer up (flash ISACTIVATE) BUFFER_SIZE = Inr m3"
    and "is_in_rx_buffer up (flash ISGUARD) BUFFER_SIZE = Inr m4"
  shows "\<exists>st'. main_sms_dispatch st = Inr st' \<and>
           sent_since st st' =
             (if m1 = 1 then multi_events num else []) @
             (if m2 = 1 then single_events num else []) @
             (if m3 = 1 then activate_events num (phonenumber st) else []) @
             (if m4 = 1 then guard_events num else []) \<and>
           continousgps st' =
             (if m4 = 1 then 255 else if m3 = 1 then 0 else if m2 = 1 then 1
              else if m1 = 1 then 5 else 0)"
proof -
  let ?s0 = "st\<lparr>initialized := 0, ringrcvd := 0, continousgps := 0\<rparr>"
  from assms(1-4) have i0: "dispatch_inv up num (phonenumber st) ?s0"
    by (simp add: dispatch_inv_def)
  from sms_multi_effect [OF i0 assms(5)] obtain s1
    where s1: "sms_multi ?s0 = Inr s1" "dispatch_inv up num (phonenumber st) s1"
      "tx s1 = tx ?s0 @ (if m1 = 1 then multi_events num else [])"
      "continousgps s1 = (if m1 = 1 then 5 else continousgps ?s0)"
    by blast
  from sms_single_effect [OF s1(2) assms(6)] obtain s2
    where s2: "sms_single s1 = Inr s2" "dispatch_inv up num (phonenumber st) s2"
      "tx s2 = tx s1 @ (if m2 = 1 then single_events num else [])"
      "continousgps s2 = (if m2 = 1 then 1 else continousgps s1)"
    by blast
  from sms_activate_effect [OF s2(2) assms(7)] obtain s3
    where s3: "sms_activate s2 = Inr s3" "dispatch_inv up num (phonenumber st) s3"
      "tx s3 = tx s2 @ (if m3 = 1 then activate_events num (phonenumber st) else [])"
      "continousgps s3 = (if m3 = 1 then 0 else continousgps s2)"
    by blast
  from sms_guard_effect [OF s3(2) assms(8)] obtain s4
    where s4: "sms_guard s3 = Inr s4"
      "tx s4 = tx s3 @ (if m4 = 1 then guard_events num else [])"
      "continousgps s4 = (if m4 = 1 then 255 else continousgps s3)"
    by blast
  have "main_sms_dispatch st = Inr s4"
    by (simp add: main_sms_dispatch_def s1(1) s2(1) s3(1) s4(1))
  moreover have "tx s4 = tx st @
             ((if m1 = 1 then multi_events num else []) @
              (if m2 = 1 then single_events num else []) @
              (if m3 = 1 then activate_events num (phonenumber st) else []) @
              (if m4 = 1 then guard_events num else []))"
    by (simp add: s1(3) s2(3) s3(3) s4(2))
  moreover have "continousgps s4 =
             (if m4 = 1 then 255 else if m3 = 1 then 0 else if m2 = 1 then 1
              else if m1 = 1 then 5 else 0)"
    by (simp add: s1(4) s2(4) s3(4) s4(3))
  ultimately show ?thesis
    using sent_since_append [of s4 st] by blast
qed

text \<open>
  The four tests are separate \<open>if\<close> statements. With the body \<open>guard single\<close> the
  branch of \<open>SINGLE\<close> runs and sets the mode to 1, then the branch of \<open>GUARD\<close> runs
  and sets it to 255.
\<close>

lemma guard_single_runs_both:
  "map_sum id (\<lambda>s. (tx s, continousgps s)) (main_sms (sms_received ''+48123456789'' ''guard single'')) =
   Inr (single_events ''+48123456789'' @ guard_events ''+48123456789'', 255)"
  by code_simp

text \<open>
  C8. The claim: every body that contains two keywords, for instance \<open>SINGLE\<close> and
  \<open>GUARD\<close>, runs both branches, each with its acknowledgment, the later mode
  overriding the earlier. With the body \<open>single guard\<close> both keywords occur in the
  upper-cased text, but only the branch of \<open>SINGLE\<close> runs and the mode stays 1: the
  test for \<open>GUARD\<close> is lost in \<open>is_in_rx_buffer\<close>, which is thrown off by the \<open>G\<close>
  of \<open>SINGLE\<close> in the way shown for C1.
\<close>

theorem single_guard_runs_single_only:
  "sublist ISSINGLE ''SINGLE GUARD'' \<and> sublist ISGUARD ''SINGLE GUARD'' \<and>
   map_sum id (\<lambda>s. (tx s, continousgps s)) (main_sms (sms_received ''+48123456789'' ''single guard'')) =
   Inr (single_events ''+48123456789'', 1)"
  by code_simp

section \<open>The sender number of an SMS\<close>

text \<open>
  For a notification whose sender has at most 19 characters, and which ends before the
  fuse of 150 bytes, \<open>readsmsphonenumber\<close> leaves the sender in \<open>phonenumber\<close> as a C
  string.
\<close>

lemma word_step:
  fixes p :: "8 word"
  assumes "unat p < 255"
  shows "unat (p + 1) = Suc (unat p)"
  using assms by (simp add: unat_word_ariths)

lemma fuse_step:
  fixes i :: "8 word"
  assumes "unat i + n + 1 < 150"
  shows "(i + 1 < 150) = True" "unat (i + 1) = Suc (unat i)"
  using assms by (simp_all add: word_less_nat_alt unat_word_ariths)

lemma word_shift: "(a :: 8 word) + 1 + of_nat n + 1 = a + of_nat (Suc n) + 1"
  by simp

lemma sms_skip_to_spec:
  "length (response st) < 256 \<Longrightarrow>
   drop (unat (response_pos st)) (response st) = x @ stop # y \<Longrightarrow> stop \<notin> set x \<Longrightarrow>
   unat i + length x + 1 < 150 \<Longrightarrow>
   sms_skip_to stop i st =
     Inr (i + of_nat (length x) + 1,
          st\<lparr>response_pos := response_pos st + of_nat (length x) + 1\<rparr>)"
proof (induction x arbitrary: i st)
  case Nil
  from Nil.prems(2) have lt: "unat (response_pos st) < length (response st)"
    by (metis drop_eq_Nil2 list.distinct(1) not_le_imp_less append_Nil)
  from Nil.prems(2) lt have "response st ! unat (response_pos st) = stop"
    by (metis append_Nil nth_via_drop)
  with lt Nil.prems(1) show ?case
    by (simp add: sms_skip_to.simps [of stop i st] rd_def)
next
  case (Cons c x)
  let ?st = "st\<lparr>response_pos := response_pos st + 1\<rparr>"
  from Cons.prems(2) have lt: "unat (response_pos st) < length (response st)"
    by (metis drop_eq_Nil2 list.distinct(1) not_le_imp_less append_Cons)
  from Cons.prems(2) lt have c: "response st ! unat (response_pos st) = c"
    by (metis append_Cons nth_via_drop)
  from lt Cons.prems(1) have p1: "unat (response_pos st + 1) = Suc (unat (response_pos st))"
    by (intro word_step) simp
  from Cons.prems(2) have "drop (Suc (unat (response_pos st))) (response st) = x @ stop # y"
    by (metis append_Cons drop_Suc list.sel(3) tl_drop)
  with p1 have d: "drop (unat (response_pos ?st)) (response ?st) = x @ stop # y"
    by simp
  from Cons.prems(4) have f: "(i + 1 < 150) = True" "unat (i + 1) = Suc (unat i)"
    by (rule fuse_step [of i "length (c # x)"])+
  have rec: "sms_skip_to stop (i + 1) ?st =
          Inr (i + 1 + of_nat (length x) + 1,
               ?st\<lparr>response_pos := response_pos ?st + of_nat (length x) + 1\<rparr>)"
    using Cons.prems f d by (intro Cons.IH) simp_all
  from Cons.prems(3) have cs: "c \<noteq> stop"
    by auto
  from lt Cons.prems(1) c have "rd (response st) (response_pos st) = Inr c"
    by (simp add: rd_def)
  with cs f(1) have "sms_skip_to stop i st = sms_skip_to stop (i + 1) ?st"
    by (simp add: sms_skip_to.simps [of stop i st])
  also note rec
  finally show ?case
    by (simp add: ac_simps)
qed

lemma sms_copy_number_spec:
  "length (response st) < 256 \<Longrightarrow> length (phonenumber st) = 20 \<Longrightarrow>
   drop (unat (response_pos st)) (response st) = x @ CHR 0x22 # y \<Longrightarrow>
   CHR 0x22 \<notin> set x \<Longrightarrow>
   unat (phonenumber_pos st) + length x + 1 \<le> 20 \<Longrightarrow> unat i + length x + 1 < 150 \<Longrightarrow>
   sms_copy_number i st =
     Inr (i + of_nat (length x) + 1,
          st\<lparr>response_pos := response_pos st + of_nat (length x) + 1,
             phonenumber :=
               take (unat (phonenumber_pos st)) (phonenumber st) @ x @
               CHR 0x22 # drop (unat (phonenumber_pos st) + length x + 1) (phonenumber st),
             phonenumber_pos := phonenumber_pos st + of_nat (length x) + 1\<rparr>)"
proof (induction x arbitrary: i st)
  case Nil
  from Nil.prems(3) have lt: "unat (response_pos st) < length (response st)"
    by (metis drop_eq_Nil2 list.distinct(1) not_le_imp_less append_Nil)
  from Nil.prems(3) lt have "response st ! unat (response_pos st) = CHR 0x22"
    by (metis append_Nil nth_via_drop)
  with lt Nil.prems(1) have rd: "rd (response st) (response_pos st) = Inr (CHR 0x22)"
    by (simp add: rd_def)
  from Nil.prems(2,5) have q: "unat (phonenumber_pos st) < length (phonenumber st)"
    by simp
  with Nil.prems(2)
  have wr: "wr (phonenumber st) (phonenumber_pos st) (CHR 0x22) =
              Inr (take (unat (phonenumber_pos st)) (phonenumber st) @
                   CHR 0x22 # drop (Suc (unat (phonenumber_pos st))) (phonenumber st))"
    by (simp add: wr_def upd_conv_take_nth_drop)
  from rd wr show ?case
    by (simp add: sms_copy_number.simps [of i st])
next
  case (Cons c x)
  let ?q = "unat (phonenumber_pos st)"
  let ?pn = "(phonenumber st)[?q := c]"
  let ?st = "st\<lparr>response_pos := response_pos st + 1, phonenumber := ?pn,
                 phonenumber_pos := phonenumber_pos st + 1\<rparr>"
  from Cons.prems(3) have lt: "unat (response_pos st) < length (response st)"
    by (metis drop_eq_Nil2 list.distinct(1) not_le_imp_less append_Cons)
  from Cons.prems(3) lt have c: "response st ! unat (response_pos st) = c"
    by (metis append_Cons nth_via_drop)
  with lt Cons.prems(1) have rd: "rd (response st) (response_pos st) = Inr c"
    by (simp add: rd_def)
  from Cons.prems(2,5) have q: "?q < length (phonenumber st)" "?q < 255"
    by simp_all
  with Cons.prems(2) have wr: "wr (phonenumber st) (phonenumber_pos st) c = Inr ?pn"
    by (simp add: wr_def)
  from lt Cons.prems(1) have p1: "unat (response_pos st + 1) = Suc (unat (response_pos st))"
    by (intro word_step) simp
  from q(2) have q1: "unat (phonenumber_pos st + 1) = Suc ?q"
    by (rule word_step)
  from Cons.prems(3) have "drop (Suc (unat (response_pos st))) (response st) = x @ CHR 0x22 # y"
    by (metis append_Cons drop_Suc list.sel(3) tl_drop)
  with p1 have d: "drop (unat (response_pos ?st)) (response ?st) = x @ CHR 0x22 # y"
    by simp
  from Cons.prems(6) have f: "(i + 1 < 150) = True" "unat (i + 1) = Suc (unat i)"
    by (rule fuse_step [of i "length (c # x)"])+
  from Cons.prems(4) have cs: "c \<noteq> CHR 0x22"
    by auto
  have rec: "sms_copy_number (i + 1) ?st =
     Inr (i + 1 + of_nat (length x) + 1,
          ?st\<lparr>response_pos := response_pos ?st + of_nat (length x) + 1,
             phonenumber :=
               take (unat (phonenumber_pos ?st)) (phonenumber ?st) @ x @
               CHR 0x22 # drop (unat (phonenumber_pos ?st) + length x + 1) (phonenumber ?st),
             phonenumber_pos := phonenumber_pos ?st + of_nat (length x) + 1\<rparr>)"
    using Cons.prems f d q1 by (intro Cons.IH) simp_all
  have pn: "take (Suc ?q) ?pn @ x @ CHR 0x22 # drop (Suc ?q + length x + 1) ?pn =
            take ?q (phonenumber st) @ (c # x) @
            CHR 0x22 # drop (?q + length (c # x) + 1) (phonenumber st)"
    using q(1) by (simp add: take_Suc_conv_app_nth)
  from rec q1 have rec': "sms_copy_number (i + 1) ?st =
     Inr (i + of_nat (length (c # x)) + 1,
          st\<lparr>response_pos := response_pos st + of_nat (length (c # x)) + 1,
             phonenumber :=
               take (Suc ?q) ?pn @ x @ CHR 0x22 # drop (Suc ?q + length x + 1) ?pn,
             phonenumber_pos := phonenumber_pos st + of_nat (length (c # x)) + 1\<rparr>)"
    by (simp add: word_shift)
  from rd wr cs f(1) have "sms_copy_number i st = sms_copy_number (i + 1) ?st"
    by (simp add: sms_copy_number.simps [of i st])
  also note rec'
  finally show ?case
    by (simp only: pn)
qed

lemma unat_of_nat8: "n < 256 \<Longrightarrow> unat (of_nat n :: 8 word) = n"
  by (simp add: unat_of_nat)

lemma readsmsphonenumber_short_sender:
  assumes "length (response st) = 170" "length (phonenumber st) = 20"
    and "response st = pre @ CHR '':'' # mid @ CHR 0x22 # num @ CHR 0x22 # rest"
    and "CHR '':'' \<notin> set pre" "CHR 0x22 \<notin> set mid" "CHR 0x22 \<notin> set num"
    and "length num \<le> 19" "length pre + length mid + length num + 3 < 150"
  shows "\<exists>st'. readsmsphonenumber st = Inr (1, st') \<and>
           phonenumber st' = num @ NUL # drop (length num + 1) (phonenumber st) \<and>
           response st' = response st \<and> smstext st' = smstext st \<and> buf st' = buf st \<and>
           tx st' = tx st"
proof -
  let ?a = "length pre" and ?b = "length mid" and ?c = "length num"
  let ?st0 = "st\<lparr>phonenumber_pos := 0, response_pos := 0\<rparr>"
  let ?p1 = "of_nat ?a + 1 :: 8 word"
  let ?st1 = "?st0\<lparr>response_pos := ?p1\<rparr>"
  let ?p2 = "?p1 + of_nat ?b + 1"
  let ?st2 = "?st1\<lparr>response_pos := ?p2\<rparr>"
  let ?p3 = "?p2 + of_nat ?c + 1"
  let ?pn = "num @ CHR 0x22 # drop (?c + 1) (phonenumber st)"
  let ?st3 = "?st2\<lparr>response_pos := ?p3, phonenumber := ?pn,
                  phonenumber_pos := of_nat ?c + 1\<rparr>"
  from assms(8) have u1: "unat ?p1 = ?a + 1"
    by (simp add: unat_word_ariths unat_of_nat8)
  from assms(8) have u2: "unat ?p2 = ?a + ?b + 2"
    by (simp add: unat_word_ariths unat_of_nat8)
  have l1: "sms_skip_to (CHR '':'') 0 ?st0 = Inr (?p1, ?st1)"
    using sms_skip_to_spec [of ?st0 pre "CHR '':''" "mid @ CHR 0x22 # num @ CHR 0x22 # rest" 0]
      assms
    by simp
  have l2: "sms_skip_to (CHR 0x22) ?p1 ?st1 = Inr (?p2, ?st2)"
    using sms_skip_to_spec [of ?st1 mid "CHR 0x22" "num @ CHR 0x22 # rest" ?p1] assms u1
    by simp
  have l3: "sms_copy_number ?p2 ?st2 = Inr (?p3, ?st3)"
    using sms_copy_number_spec [of ?st2 num rest ?p2] assms u2
    by simp
  from assms(7) have "unat (of_nat ?c :: 8 word) = ?c"
    by (simp add: unat_of_nat8)
  with assms(2,7)
  have w: "wr (phonenumber ?st3) (phonenumber_pos ?st3 - 1) NUL =
             Inr (num @ NUL # drop (?c + 1) (phonenumber st))"
    by (simp add: wr_def)
  have "readsmsphonenumber st =
          Inr (1, ?st3\<lparr>phonenumber := num @ NUL # drop (?c + 1) (phonenumber st),
                      phonenumber_pos := 0, response_pos := 0\<rparr>)"
    unfolding readsmsphonenumber_def
    by (simp only: l1 l2 l3 w sum.case prod.case)
  then show ?thesis
    by simp
qed

text \<open>
  The two together: when the matcher finds \<open>ACTIVATE\<close> in the body and the sender has at
  most 19 characters, the 20 bytes written to the EEPROM start with the sender and its
  terminating NUL.
\<close>

lemma activate_persists_short_sender:
  assumes "length (response st) = 170" "length (phonenumber st) = 20" "length (buf st) = 40"
    and "response st = pre @ CHR '':'' # mid @ CHR 0x22 # num @ CHR 0x22 # rest"
    and "CHR '':'' \<notin> set pre" "CHR 0x22 \<notin> set mid" "CHR 0x22 \<notin> set num" "NUL \<notin> set num"
    and "length num \<le> 19" "length pre + length mid + length num + 3 < 150"
    and "strupr (smstext st) = Inr up"
    and "is_in_rx_buffer up (flash ISMULTI) BUFFER_SIZE = Inr m1"
    and "is_in_rx_buffer up (flash ISSINGLE) BUFFER_SIZE = Inr m2"
    and "is_in_rx_buffer up (flash ISACTIVATE) BUFFER_SIZE = Inr 1"
    and "is_in_rx_buffer up (flash ISGUARD) BUFFER_SIZE = Inr m4"
  shows "\<exists>st1 st' stored.
           readsmsphonenumber st = Inr (1, st1) \<and> main_sms_dispatch st1 = Inr st' \<and>
           Eeprom_write EEADDR stored \<in> set (sent_since st st') \<and>
           length stored = 20 \<and> cstr stored = Inr num"
proof -
  let ?stored = "num @ NUL # drop (length num + 1) (phonenumber st)"
  from readsmsphonenumber_short_sender [OF assms(1,2,4,5,6,7,9,10)] obtain st1
    where r: "readsmsphonenumber st = Inr (1, st1)"
      and pn: "phonenumber st1 = ?stored"
      and fr: "smstext st1 = smstext st" "buf st1 = buf st" "tx st1 = tx st"
    by blast
  from assms(2,9) have len: "length ?stored = 20"
    by simp
  from assms(8) have c: "cstr ?stored = Inr num"
    by (rule cstr_token)
  from main_sms_dispatch_effect [of st1 up num m1 m2 1 m4] pn fr len c assms(3,11-15)
  obtain st' where d: "main_sms_dispatch st1 = Inr st'"
    and e: "sent_since st1 st' =
             (if m1 = 1 then multi_events num else []) @
             (if m2 = 1 then single_events num else []) @
             activate_events num ?stored @
             (if m4 = 1 then guard_events num else [])"
    by auto
  from fr(3) have "sent_since st st' = sent_since st1 st'"
    by (simp add: sent_since_def)
  with e have "Eeprom_write EEADDR ?stored \<in> set (sent_since st st')"
    by (simp add: activate_events_def)
  with r d len c show ?thesis
    by blast
qed

text \<open>
  \<open>readline\<close> on the notification followed by the body gives the state
  \<open>sms_received\<close>.
\<close>

lemma readline_cmt:
  "map_sum id snd (readline (initial_state\<lparr>rx := [CR, LF] @ cmt_line ''+48123456789'' @ [CR, LF] @ ''ACTIVATE'' @ [CR, LF]\<rparr>)) =
   Inr (sms_received ''+48123456789'' ''ACTIVATE'')"
  by code_simp

text \<open>
  A sender of 12 characters: the branch for \<open>ACTIVATE\<close> writes the 20 bytes of
  \<open>phonenumber\<close> to the EEPROM, the number, its NUL and what the array held behind it.
\<close>

lemma activate_stores_number:
  "map_sum id tx (main_sms (sms_received ''+48123456789'' ''activate'')) =
   Inr [Dtr False, Puts_P AT, Delay_sec 1, Puts_P SLEEPOFF, Delay_sec 1, Dtr True, Delay_sec 1,
        Eeprom_write 0 (''+48123456789'' @ [NUL] @ ''4567890''),
        Puts_P SMS1, Delay_sec 1, Puts_P SMS2, Puts ''+48123456789'', Puts_P CRLF, Delay_sec 1,
        Puts_P ACTIVATED, Puts ''+48123456789'',
        Send CTRL_Z, Delay_sec 10, Puts_P SMS1, Delay_sec 1, Puts_P DELSMS, Delay_sec 2]"
  by code_simp

text \<open>A sender of 19 characters is the longest that fits.\<close>

lemma number_of_19_fits:
  "map_sum id (\<lambda>(r, s). phonenumber s) (readsmsphonenumber (sms_received ''+481234567890123456'' ''ACTIVATE'')) = Inr (''+481234567890123456'' @ [NUL])"
  by code_simp

text \<open>
  C2. The claim: on \<open>ACTIVATE\<close> the 20 bytes written to the EEPROM are the sender
  number as parsed from between the quotes, and a number of more than 19 characters is
  cut or refused, never written past the 20-byte array \<open>phonenumber\<close>. The copy loop
  of \<open>readsmsphonenumber\<close> is bounded by the fuse \<open>i<150\<close> alone: with a sender
  of 20 characters the closing quote is stored at \<open>phonenumber[20]\<close>, outside the
  array, before \<open>main\<close> reaches the test for \<open>ACTIVATE\<close>.
\<close>

theorem activate_long_number_overflows:
  "length ''+4812345678901234567'' = 20 \<and>
   readsmsphonenumber (sms_received ''+4812345678901234567'' ''ACTIVATE'') = Inl OutOfBounds \<and>
   main_sms (sms_received ''+4812345678901234567'' ''ACTIVATE'') = Inl OutOfBounds"
  by code_simp

end
